theory Spec2Isabelle
  imports Complex_Main "HOL-Library.Multiset" "HOL-Library.List_Lexorder" "HOL-Library.Char_ord"
begin

section \<open>Numbers as the scripts compute with them\<close>

text \<open>
  The scripts compute with numpy doubles. A double is a real number, an infinity or
  \<open>nan\<close>. The special values follow the IEEE rules, which numpy applies with a warning
  and never with an exception: \<open>0 / 0\<close>, \<open>inf - inf\<close>, \<open>inf / inf\<close> and \<open>0 * inf\<close> are
  \<open>nan\<close>, every operation on \<open>nan\<close> is \<open>nan\<close>, and every comparison with \<open>nan\<close> is
  false. The model has one zero: the sign of a zero matters only when a non-zero
  number is divided by it, which no division of the scripts does.
\<close>

datatype npfloat = Val real | PInf | NInf | NaN

text \<open>
  How the finite result of an operation becomes a double is a parameter of every
  arithmetic function below: \<open>rnd\<close> takes the exact result to the double that is
  stored (an infinity on overflow). The sum of an array of eight or more elements is a
  parameter too: numpy adds such arrays in blocks, in an order that depends on its
  build; shorter arrays are added from left to right, starting from zero.
  A decimal literal of the source (0.3, 0.01, ...) is written as that decimal.
\<close>

record arith =
  rnd :: "real \<Rightarrow> npfloat"
  long_sum :: "npfloat list \<Rightarrow> npfloat"

fun np_neg :: "npfloat \<Rightarrow> npfloat" where
  "np_neg (Val a) = Val (- a)"
| "np_neg PInf = NInf"
| "np_neg NInf = PInf"
| "np_neg NaN = NaN"

fun np_add :: "(real \<Rightarrow> npfloat) \<Rightarrow> npfloat \<Rightarrow> npfloat \<Rightarrow> npfloat" where
  "np_add r (Val a) (Val b) = r (a + b)"
| "np_add r NaN y = NaN"
| "np_add r x NaN = NaN"
| "np_add r PInf NInf = NaN"
| "np_add r NInf PInf = NaN"
| "np_add r PInf y = PInf"
| "np_add r x PInf = PInf"
| "np_add r NInf y = NInf"
| "np_add r x NInf = NInf"

definition np_sub :: "(real \<Rightarrow> npfloat) \<Rightarrow> npfloat \<Rightarrow> npfloat \<Rightarrow> npfloat" where
  "np_sub r x y = np_add r x (np_neg y)"

fun is_zero :: "npfloat \<Rightarrow> bool" where
  "is_zero (Val a) = (a = 0)"
| "is_zero x = False"

fun is_negative :: "npfloat \<Rightarrow> bool" where
  "is_negative (Val a) = (a < 0)"
| "is_negative NInf = True"
| "is_negative x = False"

fun np_mul :: "(real \<Rightarrow> npfloat) \<Rightarrow> npfloat \<Rightarrow> npfloat \<Rightarrow> npfloat" where
  "np_mul r (Val a) (Val b) = r (a * b)"
| "np_mul r NaN y = NaN"
| "np_mul r x NaN = NaN"
| "np_mul r x y =
     (if is_zero x \<or> is_zero y then NaN
      else if is_negative x = is_negative y then PInf else NInf)"

fun np_div :: "(real \<Rightarrow> npfloat) \<Rightarrow> npfloat \<Rightarrow> npfloat \<Rightarrow> npfloat" where
  "np_div r (Val a) (Val b) =
     (if b = 0 then (if a = 0 then NaN else if 0 < a then PInf else NInf) else r (a / b))"
| "np_div r NaN y = NaN"
| "np_div r x NaN = NaN"
| "np_div r (Val a) y = Val 0"
| "np_div r x (Val b) = (if is_negative x = (b < 0) then PInf else NInf)"
| "np_div r x y = NaN"

fun np_sqrt :: "(real \<Rightarrow> npfloat) \<Rightarrow> npfloat \<Rightarrow> npfloat" where
  "np_sqrt r (Val a) = (if a < 0 then NaN else r (sqrt a))"
| "np_sqrt r PInf = PInf"
| "np_sqrt r NInf = NaN"
| "np_sqrt r NaN = NaN"

fun np_abs :: "npfloat \<Rightarrow> npfloat" where
  "np_abs (Val a) = Val \<bar>a\<bar>"
| "np_abs PInf = PInf"
| "np_abs NInf = PInf"
| "np_abs NaN = NaN"

text \<open>The order of the doubles; \<open>nan\<close> is neither below nor above anything.\<close>

fun np_lt :: "npfloat \<Rightarrow> npfloat \<Rightarrow> bool" where
  "np_lt (Val a) (Val b) = (a < b)"
| "np_lt NInf (Val b) = True"
| "np_lt NInf PInf = True"
| "np_lt (Val a) PInf = True"
| "np_lt x y = False"

definition np_gt :: "npfloat \<Rightarrow> npfloat \<Rightarrow> bool" where
  "np_gt x y = np_lt y x"

text \<open>Python's builtin \<open>min(a, b)\<close> keeps \<open>a\<close> unless \<open>b < a\<close>.\<close>

definition py_min :: "npfloat \<Rightarrow> npfloat \<Rightarrow> npfloat" where
  "py_min a b = (if np_lt b a then b else a)"

text \<open>\<open>np.clip(x, lo, hi)\<close> is \<open>minimum(maximum(x, lo), hi)\<close>, and \<open>nan\<close> stays \<open>nan\<close>.\<close>

fun np_clip :: "npfloat \<Rightarrow> real \<Rightarrow> real \<Rightarrow> npfloat" where
  "np_clip (Val x) lo hi = Val (min (max x lo) hi)"
| "np_clip PInf lo hi = Val hi"
| "np_clip NInf lo hi = Val (min lo hi)"
| "np_clip NaN lo hi = NaN"

text \<open>\<open>np.sum\<close> of a one-dimensional array.\<close>

definition np_sum :: "arith \<Rightarrow> npfloat list \<Rightarrow> npfloat" where
  "np_sum ar xs =
     (if length xs < 8 then foldl (np_add (rnd ar)) (Val 0) xs else long_sum ar xs)"

text \<open>
  \<open>np.mean\<close> divides the sum by the number of elements; \<open>np.std\<close> (population
  standard deviation, \<open>ddof = 0\<close>) is the square root of the mean of the squared
  deviations from the mean, computed array by array.
\<close>

definition np_mean :: "arith \<Rightarrow> npfloat list \<Rightarrow> npfloat" where
  "np_mean ar xs = np_div (rnd ar) (np_sum ar xs) (Val (real (length xs)))"

definition np_std :: "arith \<Rightarrow> npfloat list \<Rightarrow> npfloat" where
  "np_std ar xs =
     (let arrmean = np_div (rnd ar) (np_sum ar xs) (Val (real (length xs)));
          x = map (\<lambda>v. np_sub (rnd ar) v arrmean) xs;
          x2 = map (\<lambda>v. np_mul (rnd ar) v v) x;
          ret = np_div (rnd ar) (np_sum ar x2) (Val (real (length xs)))
      in np_sqrt (rnd ar) ret)"

text \<open>
  \<open>max(n_positive, n_negative) / len(biases)\<close>: a numpy integer divided by a Python
  integer, as doubles. The counts are at most the length, so a zero length divides
  zero by zero.
\<close>

definition np_count_ratio :: "arith \<Rightarrow> nat \<Rightarrow> nat \<Rightarrow> npfloat" where
  "np_count_ratio ar k n = np_div (rnd ar) (Val (real k)) (Val (real n))"

subsection \<open>Two arithmetics\<close>

text \<open>
  Exact arithmetic: nothing is rounded and nothing overflows. On numbers the mean is
  then the real mean.
\<close>

definition exact :: arith where
  "exact = \<lparr>rnd = Val, long_sum = foldl (np_add Val) (Val 0)\<rparr>"

definition mean :: "real list \<Rightarrow> real" where
  "mean xs = sum_list xs / real (length xs)"

text \<open>
  Double precision: the exact result is rounded to the nearest number with a 53-bit
  significand, a tie to the one with an even significand (\<open>rint\<close>); the spacing does
  not go below \<open>2 ^ - 1074\<close>, and a result that rounds to \<open>2 ^ 1024\<close> or beyond is an
  infinity.
\<close>

definition rint :: "real \<Rightarrow> int" where
  "rint x =
     (let f = \<lfloor>x\<rfloor>; d = x - real_of_int f
      in if d < 1 / 2 then f else if d > 1 / 2 then f + 1 else if even f then f else f + 1)"

definition rnd_double :: "real \<Rightarrow> npfloat" where
  "rnd_double x =
     (if x = 0 then Val 0
      else (let e = max \<lfloor>log 2 \<bar>x\<bar>\<rfloor> (- 1022);
                u = 2 powr real_of_int (e - 52);
                y = real_of_int (rint (x / u)) * u
            in if 2 ^ 1024 \<le> \<bar>y\<bar> then (if 0 < y then PInf else NInf) else Val y))"

text \<open>
  The blocked sum of a long array is not described; this instance adds long arrays
  from left to right as well. The examples below have four members.
\<close>

definition double :: arith where
  "double = \<lparr>rnd = rnd_double, long_sum = foldl (np_add rnd_double) (Val 0)\<rparr>"

section \<open>The scoring engine (03_calculate_bci.py)\<close>

text \<open>
  \<open>calculate_bci_component_phi\<close> in its three steps, each named after the local
  variable it computes: the directional agreement of the biases, their magnitude
  consistency, and the clipped combination of the two.
\<close>

definition directional_agreement :: "arith \<Rightarrow> npfloat list \<Rightarrow> npfloat" where
  "directional_agreement ar biases =
     (let n_positive = length (filter (\<lambda>b. np_gt b (Val 0)) biases);
          n_negative = length (filter (\<lambda>b. np_lt b (Val 0)) biases)
      in np_count_ratio ar (max n_positive n_negative) (length biases))"

definition magnitude_consistency :: "arith \<Rightarrow> npfloat list \<Rightarrow> npfloat" where
  "magnitude_consistency ar biases =
     (let bias_std = np_std ar biases;
          bias_mean = np_abs (np_mean ar biases)
      in if np_gt bias_mean (Val 0.01)
         then (let cv = np_div (rnd ar) bias_std bias_mean
               in np_div (rnd ar) (Val 1) (np_add (rnd ar) (Val 1) cv))
         else Val 0.8)"

definition phi_combine :: "arith \<Rightarrow> npfloat \<Rightarrow> npfloat \<Rightarrow> npfloat" where
  "phi_combine ar d m =
     np_clip (np_add (rnd ar) (np_mul (rnd ar) (Val 0.5) d) (np_mul (rnd ar) (Val 0.5) m))
       0.3 1.0"

definition calculate_bci_component_phi :: "arith \<Rightarrow> npfloat list \<Rightarrow> npfloat \<Rightarrow> npfloat" where
  "calculate_bci_component_phi ar ensemble_members observation =
     (let biases = map (\<lambda>m. np_sub (rnd ar) m observation) ensemble_members
      in phi_combine ar (directional_agreement ar biases) (magnitude_consistency ar biases))"

definition calculate_bci_component_rho :: "arith \<Rightarrow> npfloat \<Rightarrow> npfloat \<Rightarrow> npfloat" where
  "calculate_bci_component_rho ar spread error =
     (let spread_skill_ratio =
            (if np_gt error (Val 0.1) then py_min (np_div (rnd ar) spread error) (Val 1.0)
             else Val 1.0)
      in np_clip spread_skill_ratio 0.3 1.0)"

text \<open>
  \<open>spread\<close> and \<open>error\<close> are optional arguments (\<open>None\<close> by default); when absent
  they are derived from the members. Members, observation, spread and error are
  doubles: a caller can pass \<open>nan\<close> or an infinity for any of them.
\<close>

definition calculate_bci ::
  "arith \<Rightarrow> npfloat list \<Rightarrow> npfloat \<Rightarrow> npfloat option \<Rightarrow> npfloat option
     \<Rightarrow> npfloat \<times> npfloat \<times> npfloat" where
  "calculate_bci ar ensemble_members observation spread error =
     (let phi = calculate_bci_component_phi ar ensemble_members observation;
          spread' = (case spread of None \<Rightarrow> np_std ar ensemble_members | Some s \<Rightarrow> s);
          error' = (case error of
                      None \<Rightarrow> np_abs (np_sub (rnd ar) (np_mean ar ensemble_members) observation)
                    | Some e \<Rightarrow> e);
          rho = calculate_bci_component_rho ar spread' error';
          bci = np_sqrt (rnd ar) (np_mul (rnd ar) phi rho)
      in (bci, phi, rho))"

section \<open>Example members in double precision\<close>

text \<open>
  The doubles that Python writes 20.1, 20.2 and 20.3, and two orders of the same four
  members.
\<close>

definition d20_1 :: real where
  "d20_1 = 2828823515942093 / 140737488355328"

definition d20_2 :: real where
  "d20_2 = 5685794529555251 / 281474976710656"

definition d20_3 :: real where
  "d20_3 = 5713942027226317 / 281474976710656"

definition members_one :: "npfloat list" where
  "members_one = [Val d20_1, Val d20_3, Val d20_2, Val d20_2]"

definition members_two :: "npfloat list" where
  "members_two = [Val d20_2, Val d20_2, Val d20_1, Val d20_3]"

text \<open>The largest power of two that is a double.\<close>

definition big :: real where
  "big = 2 ^ 1023"

section \<open>Record matching and filtering (03_calculate_bci.py)\<close>

text \<open>
  The two input tables as pandas holds them after \<open>read_csv\<close> and \<open>to_datetime\<close>, one
  row each. A storm cell is a string, or missing: \<open>read_csv\<close> reads an empty cell and
  the strings of its default \<open>na_values\<close> (NA, NaN, null, ...) as \<open>nan\<close>. A time cell
  is the integer pandas holds for the timestamp, or missing (\<open>NaT\<close>). A missing cell is
  \<open>None\<close>. The numeric cells hold numbers; tables with missing numeric cells are not
  described. The rows of the scored table carry every field of the matched row they
  come from, so the scored row extends it.
\<close>

record matched_row =
  storm :: "string option"
  valid_time :: "int option"
  obs_temperature :: real
  model_mean :: real
  model_std :: real
  mean_error :: real

record ensemble_row =
  ens_storm :: "string option"
  ens_valid_time :: "int option"
  temperature :: real

record scored_row = matched_row +
  phi :: npfloat
  rho :: npfloat
  BCI :: npfloat
  n_members :: nat

text \<open>
  \<open>column == value\<close>, for one cell of the column: a missing cell (\<open>nan\<close>, \<open>NaT\<close>) is
  equal to nothing, not to another missing cell either.
\<close>

definition cell_eq :: "'a option \<Rightarrow> 'a option \<Rightarrow> bool" where
  "cell_eq a b = (case (a, b) of (Some x, Some y) \<Rightarrow> x = y | _ \<Rightarrow> False)"

text \<open>The boolean-mask selection of the member temperatures of one instance.\<close>

definition select_members ::
  "ensemble_row list \<Rightarrow> string option \<Rightarrow> int option \<Rightarrow> real list" where
  "select_members ensemble_df s vt =
     map temperature
       (filter (\<lambda>e. cell_eq (ens_storm e) s \<and> cell_eq (ens_valid_time e) vt) ensemble_df)"

text \<open>
  The loop over \<open>matched_df.iterrows()\<close>, with the list \<open>results\<close> it appends to;
  \<open>continue\<close> goes on with the next row and leaves \<open>results\<close> as it is. The scores
  are computed with the spread and the error of the row.
\<close>

fun process_rows ::
  "arith \<Rightarrow> ensemble_row list \<Rightarrow> matched_row list \<Rightarrow> scored_row list \<Rightarrow> scored_row list" where
  "process_rows ar ensemble_df [] results = results"
| "process_rows ar ensemble_df (row # rest) results =
     (let obs = obs_temperature row;
          spread = model_std row;
          error = mean_error row;
          members = select_members ensemble_df (storm row) (valid_time row)
      in if length members < 4 then process_rows ar ensemble_df rest results
         else (case calculate_bci ar (map Val members) (Val obs) (Some (Val spread))
                     (Some (Val error)) of
                 (bci, phi_v, rho_v) \<Rightarrow>
                   process_rows ar ensemble_df rest
                     (results @
                      [\<lparr>storm = storm row, valid_time = valid_time row, obs_temperature = obs,
                        model_mean = model_mean row, model_std = spread, mean_error = error,
                        phi = phi_v, rho = rho_v, BCI = bci, n_members = length members\<rparr>])))"

text \<open>The exceptions of Python that the modelled calls can raise.\<close>

datatype py_error = TypeError | ValueError | KeyError

text \<open>
  The function saves the table built from \<open>results\<close> to the output file and then
  prints summary statistics of its columns before it returns the table. A table built
  from no rows has no columns, so the first \<open>results_df['BCI']\<close> raises \<open>KeyError\<close>
  then, after the (empty) file has been written. The model returns both: what was
  saved, and what the call returns or raises.
\<close>

definition process_validation_data ::
  "arith \<Rightarrow> matched_row list \<Rightarrow> ensemble_row list
     \<Rightarrow> scored_row list \<times> (py_error + scored_row list)" where
  "process_validation_data ar matched_df ensemble_df =
     (let results = process_rows ar ensemble_df matched_df []
      in (results, if results = [] then Inl KeyError else Inr results))"

section \<open>Validation (04_validation.py)\<close>

subsection \<open>Partial correlation\<close>








subsection \<open>Per-storm statistics\<close>

text \<open>
  pandas aggregations skip missing values: \<open>mean\<close> is the mean of the values that are
  not \<open>nan\<close>, \<open>std\<close> their sample standard deviation (\<open>ddof = 1\<close>, \<open>nan\<close> below two
  values). Both are described in exact arithmetic: pandas computes them in doubles
  with its own compensated sums, and the results are rounded to three decimals next.
\<close>

definition valid :: "npfloat list \<Rightarrow> npfloat list" where
  "valid col = filter (\<lambda>v. v \<noteq> NaN) col"

definition pd_mean :: "npfloat list \<Rightarrow> npfloat" where
  "pd_mean col = np_mean exact (valid col)"

definition pd_std :: "npfloat list \<Rightarrow> npfloat" where
  "pd_std col =
     (let xs = valid col;
          avg = np_mean exact xs;
          sqr = map (\<lambda>v. np_mul Val (np_sub Val v avg) (np_sub Val v avg)) xs
      in if length xs < 2 then NaN
         else np_sqrt Val (np_div Val (np_sum exact sqr) (Val (real (length xs - 1)))))"

text \<open>
  \<open>.round(3)\<close>: numpy rounds \<open>x\<close> to \<open>rint(x * 1000) / 1000\<close>, where \<open>rint\<close> rounds
  to the nearest integer and a tie to the even one; \<open>nan\<close> and the infinities stay.
\<close>

fun np_round :: "npfloat \<Rightarrow> nat \<Rightarrow> npfloat" where
  "np_round (Val x) k = Val (real_of_int (rint (x * 10 ^ k)) / 10 ^ k)"
| "np_round v k = v"

record storm_stats =
  stats_storm :: string
  BCI_mean :: npfloat
  BCI_std :: npfloat
  Spread :: npfloat
  Error :: npfloat
  N :: nat

text \<open>The group of storm \<open>s\<close>: its rows, in the order of the table.\<close>

definition storm_rows :: "scored_row list \<Rightarrow> string \<Rightarrow> scored_row list" where
  "storm_rows df s = filter (\<lambda>r. storm r = Some s) df"

text \<open>
  The aggregation of one group; \<open>'valid_time': 'count'\<close> counts the rows of the group
  whose time cell is not missing.
\<close>

definition aggregate :: "scored_row list \<Rightarrow> string \<Rightarrow> storm_stats" where
  "aggregate df s =
     (let rows = storm_rows df s
      in \<lparr>stats_storm = s,
          BCI_mean = np_round (pd_mean (map BCI rows)) 3,
          BCI_std = np_round (pd_std (map BCI rows)) 3,
          Spread = np_round (pd_mean (map (\<lambda>r. Val (model_std r)) rows)) 3,
          Error = np_round (pd_mean (map (\<lambda>r. Val (mean_error r)) rows)) 3,
          N = length (filter (\<lambda>r. valid_time r \<noteq> None) rows)\<rparr>)"

text \<open>
  \<open>df.groupby('storm')\<close> sorts the group keys (\<open>sort=True\<close> is the default) and leaves
  the rows with a missing storm out (\<open>dropna=True\<close> is the default).
\<close>

definition groupby_storm_agg :: "scored_row list \<Rightarrow> storm_stats list" where
  "groupby_storm_agg df = map (aggregate df) (sort (remdups (List.map_filter storm df)))"

text \<open>
  \<open>sort_values('N', ascending=False)\<close> sorts with \<open>kind='quicksort'\<close>, which is not
  stable. What the call promises is a rearrangement of the rows in which the counts
  descend; which of the rows with equal counts comes first is left to the library. So
  the call is a relation between the table and what may be printed.
\<close>

definition sort_values_N_descending :: "storm_stats list \<Rightarrow> storm_stats list \<Rightarrow> bool" where
  "sort_values_N_descending rows out
     = (mset out = mset rows \<and> sorted_wrt (\<lambda>a b. N b \<le> N a) out)"

definition storm_stats_sorted :: "scored_row list \<Rightarrow> storm_stats list \<Rightarrow> bool" where
  "storm_stats_sorted df out = sort_values_N_descending (groupby_storm_agg df) out"

section \<open>Baseline comparison (04_validation.py)\<close>

text \<open>
  \<open>Series.quantile(q)\<close> with pandas' default linear interpolation between the two
  order statistics around position \<open>q * (n - 1)\<close>; \<open>nan\<close> for an empty column.
\<close>

definition quantile :: "real list \<Rightarrow> real \<Rightarrow> npfloat" where
  "quantile col q =
     (if col = [] then NaN
      else (let s = sort col;
                pos = q * real (length col - 1);
                lo = nat \<lfloor>pos\<rfloor>;
                hi = nat \<lceil>pos\<rceil>
            in Val (s ! lo + (s ! hi - s ! lo) * (pos - real lo))))"

definition error_threshold :: "scored_row list \<Rightarrow> npfloat" where
  "error_threshold df = quantile (map mean_error df) 0.75"

text \<open>\<open>(df['mean_error'] > error_threshold).astype(int)\<close>\<close>

definition high_error :: "scored_row list \<Rightarrow> nat list" where
  "high_error df =
     map (\<lambda>r. if np_gt (Val (mean_error r)) (error_threshold df) then 1 else 0) df"


section \<open>Statement predicates and example tables\<close>

text \<open>
  The member values of the instance of a row: the temperatures of the ensemble rows
  whose storm is the row's storm and whose time is the row's time, neither missing.
\<close>

definition members_of :: "ensemble_row list \<Rightarrow> string option \<Rightarrow> int option \<Rightarrow> real list" where
  "members_of ensemble_df s vt =
     map temperature
       (filter (\<lambda>e. s \<noteq> None \<and> ens_storm e = s \<and> vt \<noteq> None \<and> ens_valid_time e = vt)
          ensemble_df)"

text \<open>
  What a scored row records about the instance it was built for: the number of
  matching members, at least four of them, and the scores of exactly those members
  with the row's spread and error.
\<close>

definition scored_from :: "arith \<Rightarrow> ensemble_row list \<Rightarrow> scored_row \<Rightarrow> bool" where
  "scored_from ar ensemble_df r =
     (let members = members_of ensemble_df (storm r) (valid_time r)
      in n_members r = length members \<and> 4 \<le> n_members r
         \<and> (BCI r, phi r, rho r)
             = calculate_bci ar (map Val members) (Val (obs_temperature r))
                 (Some (Val (model_std r))) (Some (Val (mean_error r))))"

text \<open>A scored row of storm \<open>s\<close> with error \<open>e\<close> and score \<open>b\<close>, for the examples.\<close>

definition example_row :: "string \<Rightarrow> real \<Rightarrow> real \<Rightarrow> scored_row" where
  "example_row s e b =
     \<lparr>storm = Some s, valid_time = Some 0, obs_temperature = 0, model_mean = 0, model_std = 1,
      mean_error = e, phi = Val b, rho = Val b, BCI = Val b, n_members = 4\<rparr>"

text \<open>
  The table of the specification's scenario: five storms with 10, 3, 7, 1 and 20 rows.
\<close>

definition scenario_table :: "scored_row list" where
  "scenario_table =
     replicate 10 (example_row ''A'' 1 0.5) @ replicate 3 (example_row ''B'' 1 0.5)
      @ replicate 7 (example_row ''C'' 1 0.5) @ replicate 1 (example_row ''D'' 1 0.5)
      @ replicate 20 (example_row ''E'' 1 0.5)"

text \<open>
  One matched row whose key has three members only, and one whose key has four.
\<close>

definition three_member_input :: "matched_row list \<times> ensemble_row list" where
  "three_member_input =
     ([\<lparr>storm = Some ''IDA'', valid_time = Some 7, obs_temperature = 20, model_mean = 21,
        model_std = 1, mean_error = 1\<rparr>],
      [\<lparr>ens_storm = Some ''IDA'', ens_valid_time = Some 7, temperature = 20\<rparr>,
       \<lparr>ens_storm = Some ''IDA'', ens_valid_time = Some 7, temperature = 21\<rparr>,
       \<lparr>ens_storm = Some ''IDA'', ens_valid_time = Some 7, temperature = 22\<rparr>,
       \<lparr>ens_storm = Some ''IDA'', ens_valid_time = Some 8, temperature = 23\<rparr>])"





section \<open>Exact arithmetic on numbers\<close>

lemma rnd_exact: "rnd exact = Val"
  by (simp add: exact_def)

lemma foldl_add_exact:
  "foldl (np_add Val) (Val a) (map Val xs) = Val (a + sum_list xs)"
  by (induction xs arbitrary: a) (simp_all add: algebra_simps)

lemma np_sum_exact: "np_sum exact (map Val xs) = Val (sum_list xs)"
  by (simp add: np_sum_def exact_def foldl_add_exact)

lemma np_mean_exact:
  "np_mean exact (map Val xs) = (if xs = [] then NaN else Val (mean xs))"
  by (simp add: np_mean_def np_sum_exact rnd_exact mean_def)

lemma np_std_exact:
  "np_std exact (map Val xs) =
     (if xs = [] then NaN else Val (sqrt (mean (map (\<lambda>x. \<bar>x - mean xs\<bar> ^ 2) xs))))"
proof (cases "xs = []")
  case True
  then show ?thesis by (simp add: np_std_def np_sum_def exact_def)
next
  case False
  have m: "np_div Val (np_sum exact (map Val xs)) (Val (real (length xs))) = Val (mean xs)"
    using False by (simp add: np_sum_exact mean_def)
  have sq: "map (\<lambda>v. np_mul Val v v) (map (\<lambda>v. np_sub Val v (Val (mean xs))) (map Val xs))
      = map Val (map (\<lambda>x. \<bar>x - mean xs\<bar> ^ 2) xs)"
    by (simp add: np_sub_def power2_eq_square)
  have nn: "0 \<le> mean (map (\<lambda>x. \<bar>x - mean xs\<bar> ^ 2) xs)"
    unfolding mean_def by (intro divide_nonneg_nonneg sum_list_nonneg) auto
  have d: "np_div Val (np_sum exact (map Val (map (\<lambda>x. \<bar>x - mean xs\<bar> ^ 2) xs))) (Val (real (length xs)))
      = Val (mean (map (\<lambda>x. \<bar>x - mean xs\<bar> ^ 2) xs))"
    using False unfolding np_sum_exact by (simp add: mean_def)
  have "np_std exact (map Val xs)
      = np_sqrt Val (Val (mean (map (\<lambda>x. \<bar>x - mean xs\<bar> ^ 2) xs)))"
    unfolding np_std_def Let_def rnd_exact length_map m sq d ..
  also have "\<dots> = Val (sqrt (mean (map (\<lambda>x. \<bar>x - mean xs\<bar> ^ 2) xs)))"
    using nn by (simp add: not_less)
  finally show ?thesis using False by simp
qed

section \<open>The scoring engine: ranges, fallbacks, the empty member sequence\<close>





lemma biases_exact:
  "map (\<lambda>m. np_sub Val m (Val obs)) (map Val ms) = map Val (map (\<lambda>m. m - obs) ms)"
  by (simp add: np_sub_def)

lemma count_positive: "length (filter (\<lambda>b. np_gt b (Val 0)) (map Val bs)) = length (filter (\<lambda>b. b > 0) bs)"
  by (induction bs) (simp_all add: np_gt_def)

lemma count_negative: "length (filter (\<lambda>b. np_lt b (Val 0)) (map Val bs)) = length (filter (\<lambda>b. b < 0) bs)"
  by (induction bs) simp_all

lemma directional_agreement_exact:
  "directional_agreement exact (map Val bs) =
     (if bs = [] then NaN
      else Val (real (max (length (filter (\<lambda>b. b > 0) bs)) (length (filter (\<lambda>b. b < 0) bs)))
                / real (length bs)))"
  unfolding directional_agreement_def np_count_ratio_def Let_def count_positive count_negative
    rnd_exact
  by simp

lemma mean_sq_nonneg: "0 \<le> mean (map (\<lambda>x. \<bar>x - c\<bar> ^ 2) xs)"
  unfolding mean_def
  by (intro divide_nonneg_nonneg sum_list_nonneg) auto

lemma magnitude_consistency_exact:
  assumes "bs \<noteq> []"
  shows "magnitude_consistency exact (map Val bs) =
           (if \<bar>mean bs\<bar> > 0.01
            then Val (1 / (1 + sqrt (mean (map (\<lambda>x. \<bar>x - mean bs\<bar> ^ 2) bs)) / \<bar>mean bs\<bar>))
            else Val 0.8)"
proof (cases "\<bar>mean bs\<bar> > 0.01")
  case True
  let ?s = "sqrt (mean (map (\<lambda>x. \<bar>x - mean bs\<bar> ^ 2) bs))"
  have s: "0 \<le> ?s" using mean_sq_nonneg by simp
  have "0 \<le> ?s / \<bar>mean bs\<bar>" using s by simp
  then have nz: "1 + ?s / \<bar>mean bs\<bar> \<noteq> 0" by linarith
  have m: "\<bar>mean bs\<bar> \<noteq> 0" using True by auto
  have "magnitude_consistency exact (map Val bs) = Val (1 / (1 + ?s / \<bar>mean bs\<bar>))"
    unfolding magnitude_consistency_def Let_def np_mean_exact np_std_exact rnd_exact
    using True nz m assms by (simp add: np_gt_def del: abs_eq_0 abs_eq_0_iff)
  with True show ?thesis by simp
next
  case False
  have "magnitude_consistency exact (map Val bs) = Val 0.8"
    unfolding magnitude_consistency_def Let_def np_mean_exact np_std_exact rnd_exact
    using False assms by (simp add: np_gt_def)
  with False show ?thesis by simp
qed

lemma magnitude_consistency_empty: "magnitude_consistency ar [] = Val 0.8"
  by (simp add: magnitude_consistency_def np_mean_def np_sum_def np_gt_def)











text \<open>
  The two scenarios of the specification, in exact arithmetic: members 1, 2, 3, 4
  against the observation 2.5, and four members equal to the observation 5.
\<close>

lemma scenario_symmetric_members:
  "calculate_bci exact (map Val [1, 2, 3, 4]) (Val 2.5) None None
     = (Val (sqrt 0.65), Val 0.65, Val 1)"
  by (simp add: calculate_bci_def calculate_bci_component_phi_def phi_combine_def
        directional_agreement_def np_count_ratio_def magnitude_consistency_def
        calculate_bci_component_rho_def np_std_def np_mean_def np_sum_def np_sub_def
        np_gt_def exact_def Let_def)

lemma scenario_equal_members:
  "calculate_bci exact (map Val [5, 5, 5, 5]) (Val 5) None None
     = (Val (sqrt 0.4), Val 0.4, Val 1)"
  by (simp add: calculate_bci_def calculate_bci_component_phi_def phi_combine_def
        directional_agreement_def np_count_ratio_def magnitude_consistency_def
        calculate_bci_component_rho_def np_std_def np_mean_def np_sum_def np_sub_def
        np_gt_def exact_def Let_def)

lemma rho_small_error:
  "error \<le> 0.1 \<Longrightarrow> calculate_bci_component_rho ar spread (Val error) = Val 1"
  by (simp add: calculate_bci_component_rho_def Let_def np_gt_def)





text \<open>
  Claim C3, as amended. The scoring functions raise nothing: every operation on an
  empty array (the division of the count 0 by the length 0, the mean, the standard
  deviation) answers \<open>nan\<close> with a warning. For an empty member sequence the call
  returns phi = \<open>nan\<close> and BCI = \<open>nan\<close>; rho follows the rho rule from the supplied
  spread and error, with \<open>nan\<close> for each one that is derived from the members.
\<close>

theorem calculate_bci_empty:
  "calculate_bci ar [] observation spread error =
     (NaN, NaN,
      calculate_bci_component_rho ar (case spread of None \<Rightarrow> NaN | Some s \<Rightarrow> s)
        (case error of None \<Rightarrow> NaN | Some e \<Rightarrow> e))"
proof -
  have phi: "calculate_bci_component_phi ar [] observation = NaN"
    by (simp add: calculate_bci_component_phi_def phi_combine_def directional_agreement_def
          np_count_ratio_def magnitude_consistency_empty)
  have m: "np_mean ar [] = NaN" by (simp add: np_mean_def np_sum_def)
  have s: "np_std ar [] = NaN" by (simp add: np_std_def np_sum_def)
  have sub: "np_sub r NaN x = NaN" for r x by (simp add: np_sub_def)
  show ?thesis
    by (cases spread; cases error) (simp_all add: calculate_bci_def Let_def phi m s sub)
qed

text \<open>
  The claim as stated (the call fails with an error and returns no result) is false:
  on no members and the observation 2.5 the call returns the triple (nan, nan, 1.0).
\<close>

theorem calculate_bci_empty_returns:
  "calculate_bci double [] (Val 2.5) None None = (NaN, NaN, Val 1)"
proof -
  have phi: "calculate_bci_component_phi double [] obs = NaN" for obs
    by (simp add: calculate_bci_component_phi_def phi_combine_def directional_agreement_def
          np_count_ratio_def magnitude_consistency_empty)
  have m: "np_mean double [] = NaN" by (simp add: np_mean_def np_sum_def)
  have s: "np_std double [] = NaN" by (simp add: np_std_def np_sum_def)
  have sub: "np_sub r NaN x = NaN" for r x by (simp add: np_sub_def)
  have rho: "calculate_bci_component_rho double NaN NaN = Val 1"
    by (simp add: calculate_bci_component_rho_def np_gt_def)
  show ?thesis by (simp add: calculate_bci_def Let_def phi m s sub rho)
qed

section \<open>Phi as a function of the directional agreement\<close>

lemma clip_mono:
  fixes x y lo hi :: real
  shows "x \<le> y \<Longrightarrow> min (max x lo) hi \<le> min (max y lo) hi"
  by auto

lemma clip_strict:
  fixes x y lo hi :: real
  shows "x < y \<Longrightarrow> lo \<le> hi \<Longrightarrow>
    min (max x lo) hi < min (max y lo) hi \<or> min (max x lo) hi = hi \<or> min (max y lo) hi = lo"
  by (auto simp: min_def max_def)

text \<open>
  Claim C8, as amended. With the magnitude-consistency term fixed, phi does not
  decrease when the directional agreement grows, and it grows strictly between the
  two clips: for d1 < d2, phi(d1) < phi(d2) unless phi(d1) is already 1.0 or phi(d2)
  is still at the lower clip 0.3.
\<close>

theorem phi_monotone_between_clips:
  assumes "d1 < d2"
  shows "\<exists>p1 p2. phi_combine exact (Val d1) (Val m) = Val p1
           \<and> phi_combine exact (Val d2) (Val m) = Val p2
           \<and> p1 \<le> p2 \<and> (p1 < p2 \<or> p1 = 1 \<or> p2 = 0.3)"
proof -
  let ?x = "0.5 * d1 + 0.5 * m" and ?y = "0.5 * d2 + 0.5 * m"
  have xy: "?x < ?y" using assms by simp
  have le: "(0.3::real) \<le> 1.0" by simp
  have "min (max ?x 0.3) 1.0 \<le> min (max ?y 0.3) 1.0"
    by (rule clip_mono) (use xy in simp)
  moreover have "min (max ?x 0.3) 1.0 < min (max ?y 0.3) 1.0 \<or> min (max ?x 0.3) 1.0 = 1.0
      \<or> min (max ?y 0.3) 1.0 = 0.3"
    by (rule clip_strict [OF xy le])
  ultimately show ?thesis
    unfolding phi_combine_def rnd_exact np_mul.simps np_add.simps np_clip.simps by simp
qed

theorem phi_monotone_between_clips_witness:
  "(0.5::real) < 0.75 \<and>
   (\<exists>p1 p2. phi_combine exact (Val 0.5) (Val 0.8) = Val p1
           \<and> phi_combine exact (Val 0.75) (Val 0.8) = Val p2
           \<and> p1 \<le> p2 \<and> (p1 < p2 \<or> p1 = 1 \<or> p2 = 0.3))"
proof -
  have h: "(0.5::real) < 0.75" by simp
  show ?thesis using h phi_monotone_between_clips [OF h, of "0.8"] by blast
qed

text \<open>
  Two bias sequences with the same mean 1/4 and the same variance 243/16, hence the
  same magnitude consistency (below 1/10): one positive bias out of four in the first,
  two in the second.
\<close>

lemma mean_one_positive: "mean [6, -5, 0, 0::real] = 1 / 4"
  by (simp add: mean_def)

lemma var_one_positive: "mean (map (\<lambda>x. \<bar>x - 1 / 4\<bar> ^ 2) [6, -5, 0, 0::real]) = 243 / 16"
  by (simp add: mean_def power2_eq_square)

lemma mean_two_positive: "mean [3, 4, -6, 0::real] = 1 / 4"
  by (simp add: mean_def)

lemma var_two_positive: "mean (map (\<lambda>x. \<bar>x - 1 / 4\<bar> ^ 2) [3, 4, -6, 0::real]) = 243 / 16"
  by (simp add: mean_def power2_eq_square)

lemma mc_one_positive:
  "magnitude_consistency exact (map Val [6, -5, 0, 0])
     = Val (1 / (1 + sqrt (243 / 16) / (1 / 4)))"
  using magnitude_consistency_exact [of "[6, -5, 0, 0]"]
  unfolding mean_one_positive var_one_positive by simp

lemma mc_two_positive:
  "magnitude_consistency exact (map Val [3, 4, -6, 0])
     = Val (1 / (1 + sqrt (243 / 16) / (1 / 4)))"
  using magnitude_consistency_exact [of "[3, 4, -6, 0]"]
  unfolding mean_two_positive var_two_positive by simp

lemma mc_small: "1 / (1 + sqrt (243 / 16) / (1 / 4)) \<le> (1 / 10 :: real)"
proof -
  have "(9 / 4 :: real)\<^sup>2 \<le> 243 / 16" by (simp add: power2_eq_square)
  then have "9 / 4 \<le> sqrt (243 / 16 :: real)" by (rule real_le_rsqrt)
  then have "10 \<le> 1 + sqrt (243 / 16 :: real) / (1 / 4)" by simp
  then show ?thesis by (simp add: field_simps)
qed

lemma phi_combine_low:
  assumes "d \<le> 1 / 2" "m \<le> 1 / 10"
  shows "phi_combine exact (Val d) (Val m) = Val 0.3"
proof -
  have "0.5 * d + 0.5 * m \<le> 0.3" using assms by simp
  then show ?thesis by (simp add: phi_combine_def rnd_exact max_def min_def)
qed

text \<open>
  The claim as stated (phi(d1) < phi(d2) unless phi(d1) is 1.0) is false at the lower
  clip: the members 6, -5, 0, 0 and 3, 4, -6, 0 against the observation 0 have the
  directional agreements 1/4 < 1/2 and the same magnitude consistency, and phi is 0.3
  for both.
\<close>

theorem phi_lower_clip_flat:
  "directional_agreement exact (map Val [6, -5, 0, 0]) = Val (1 / 4)
   \<and> directional_agreement exact (map Val [3, 4, -6, 0]) = Val (1 / 2)
   \<and> magnitude_consistency exact (map Val [6, -5, 0, 0])
       = magnitude_consistency exact (map Val [3, 4, -6, 0])
   \<and> calculate_bci_component_phi exact (map Val [6, -5, 0, 0]) (Val 0) = Val 0.3
   \<and> calculate_bci_component_phi exact (map Val [3, 4, -6, 0]) (Val 0) = Val 0.3"
proof -
  have dA: "directional_agreement exact (map Val [6, -5, 0, 0]) = Val (1 / 4)"
    unfolding directional_agreement_exact by simp
  have dB: "directional_agreement exact (map Val [3, 4, -6, 0]) = Val (1 / 2)"
    unfolding directional_agreement_exact by simp
  have bA: "map (\<lambda>m. m - 0) [6, -5, 0, 0::real] = [6, -5, 0, 0]" by simp
  have bB: "map (\<lambda>m. m - 0) [3, 4, -6, 0::real] = [3, 4, -6, 0]" by simp
  have pA: "calculate_bci_component_phi exact (map Val [6, -5, 0, 0]) (Val 0) = Val 0.3"
    unfolding calculate_bci_component_phi_def Let_def rnd_exact biases_exact bA dA mc_one_positive
    by (rule phi_combine_low [OF _ mc_small]) simp
  have pB: "calculate_bci_component_phi exact (map Val [3, 4, -6, 0]) (Val 0) = Val 0.3"
    unfolding calculate_bci_component_phi_def Let_def rnd_exact biases_exact bB dB mc_two_positive
    by (rule phi_combine_low [OF _ mc_small]) simp
  show ?thesis using dA dB pA pB by (simp only: mc_one_positive mc_two_positive)
qed

section \<open>The order of the members\<close>

lemma np_add_exact_right_commute:
  "np_add Val (np_add Val a x) y = np_add Val (np_add Val a y) x"
  by (cases a; cases x; cases y) (simp_all add: algebra_simps)

lemma foldl_add_exact_mset:
  assumes "mset xs = mset ys"
  shows "foldl (np_add Val) z xs = foldl (np_add Val) z ys"
proof -
  have "fold (\<lambda>x s. np_add Val s x) xs = fold (\<lambda>x s. np_add Val s x) ys"
    by (rule fold_multiset_equiv [OF _ assms]) (auto simp: fun_eq_iff np_add_exact_right_commute)
  then show ?thesis by (simp add: foldl_conv_fold)
qed

lemma np_sum_exact_mset: "mset xs = mset ys \<Longrightarrow> np_sum exact xs = np_sum exact ys"
  using foldl_add_exact_mset [of xs ys "Val 0"] mset_eq_length [of xs ys]
  by (simp add: np_sum_def exact_def)

lemma np_mean_exact_mset: "mset xs = mset ys \<Longrightarrow> np_mean exact xs = np_mean exact ys"
  using np_sum_exact_mset [of xs ys] mset_eq_length [of xs ys] by (simp add: np_mean_def)

lemma np_std_exact_mset:
  assumes "mset xs = mset ys"
  shows "np_std exact xs = np_std exact ys"
proof -
  have l: "length xs = length ys" using assms by (rule mset_eq_length)
  have s: "np_sum exact xs = np_sum exact ys" using assms by (rule np_sum_exact_mset)
  have "mset (map f xs) = mset (map f ys)" for f :: "npfloat \<Rightarrow> npfloat" using assms by simp
  then have "np_sum exact (map f xs) = np_sum exact (map f ys)" for f :: "npfloat \<Rightarrow> npfloat"
    by (rule np_sum_exact_mset)
  then show ?thesis unfolding np_std_def Let_def map_map l s by simp
qed

lemma length_filter_mset: "mset xs = mset ys \<Longrightarrow> length (filter P xs) = length (filter P ys)"
  by (metis mset_filter size_mset)

lemma directional_agreement_mset:
  "mset xs = mset ys \<Longrightarrow> directional_agreement ar xs = directional_agreement ar ys"
  unfolding directional_agreement_def Let_def
  using length_filter_mset [of xs ys] mset_eq_length [of xs ys] by simp

lemma calculate_bci_same_moments:
  assumes "mset members = mset members'"
    and "np_mean ar members = np_mean ar members'"
    and "np_std ar members = np_std ar members'"
    and "np_mean ar (map (\<lambda>m. np_sub (rnd ar) m observation) members)
         = np_mean ar (map (\<lambda>m. np_sub (rnd ar) m observation) members')"
    and "np_std ar (map (\<lambda>m. np_sub (rnd ar) m observation) members)
         = np_std ar (map (\<lambda>m. np_sub (rnd ar) m observation) members')"
  shows "calculate_bci ar members observation spread error
       = calculate_bci ar members' observation spread error"
proof -
  let ?b = "map (\<lambda>m. np_sub (rnd ar) m observation) members"
  let ?b' = "map (\<lambda>m. np_sub (rnd ar) m observation) members'"
  have "mset ?b = mset ?b'" using assms(1) by simp
  then have d: "directional_agreement ar ?b = directional_agreement ar ?b'"
    by (rule directional_agreement_mset)
  have m: "magnitude_consistency ar ?b = magnitude_consistency ar ?b'"
    unfolding magnitude_consistency_def assms(4,5) ..
  have p: "calculate_bci_component_phi ar members observation
         = calculate_bci_component_phi ar members' observation"
    unfolding calculate_bci_component_phi_def Let_def d m ..
  show ?thesis
    unfolding calculate_bci_def p assms(2,3) ..
qed

text \<open>
  Claim C10, as amended. In exact arithmetic the scores depend on the members as a
  multiset only: any reordering of the member sequence gives the same triple (BCI,
  phi, rho), with or without a supplied spread and error. In any arithmetic the
  directional agreement is the same for every order of the members, and the whole
  triple is the same whenever the two orders give the same computed mean and standard
  deviation of the members and of the biases; the sums behind them are added in the
  order of the array, so with rounding they can differ.
\<close>

theorem calculate_bci_permutation:
  assumes "mset members = mset members'"
  shows "calculate_bci exact members observation spread error
           = calculate_bci exact members' observation spread error
       \<and> directional_agreement ar (map (\<lambda>m. np_sub (rnd ar) m observation) members)
           = directional_agreement ar (map (\<lambda>m. np_sub (rnd ar) m observation) members')
       \<and> (np_mean ar members = np_mean ar members'
            \<and> np_std ar members = np_std ar members'
            \<and> np_mean ar (map (\<lambda>m. np_sub (rnd ar) m observation) members)
                = np_mean ar (map (\<lambda>m. np_sub (rnd ar) m observation) members')
            \<and> np_std ar (map (\<lambda>m. np_sub (rnd ar) m observation) members)
                = np_std ar (map (\<lambda>m. np_sub (rnd ar) m observation) members')
          \<longrightarrow> calculate_bci ar members observation spread error
                = calculate_bci ar members' observation spread error)"
proof -
  have b: "mset (map (\<lambda>m. np_sub (rnd ar') m observation) members)
         = mset (map (\<lambda>m. np_sub (rnd ar') m observation) members')" for ar'
    using assms by simp
  have "calculate_bci exact members observation spread error
           = calculate_bci exact members' observation spread error"
    by (rule calculate_bci_same_moments [OF assms np_mean_exact_mset [OF assms]
          np_std_exact_mset [OF assms] np_mean_exact_mset [OF b] np_std_exact_mset [OF b]])
  moreover have "directional_agreement ar (map (\<lambda>m. np_sub (rnd ar) m observation) members)
           = directional_agreement ar (map (\<lambda>m. np_sub (rnd ar) m observation) members')"
    by (rule directional_agreement_mset [OF b])
  ultimately show ?thesis using calculate_bci_same_moments [OF assms] by blast
qed

theorem calculate_bci_permutation_witness:
  "mset [Val 1, Val 2, Val 3] = mset [Val 3, Val 1, Val 2] \<and>
   calculate_bci exact [Val 1, Val 2, Val 3] (Val 2.5) None None
     = calculate_bci exact [Val 3, Val 1, Val 2] (Val 2.5) None None"
proof -
  have h: "mset [Val 1, Val 2, Val 3] = mset [Val 3, Val 1, Val 2]" by simp
  show ?thesis using h calculate_bci_permutation [OF h] by blast
qed

section \<open>Double precision: overflow, and the order of the members\<close>

text \<open>
  Rounding to a double, certified: a real \<open>x\<close> whose scaled value \<open>x * 2 ^ p\<close> has 53
  significant bits before the point rounds to \<open>m / 2 ^ p\<close> for the integer \<open>m\<close> nearest
  to the scaled value (the even one of the two at a tie); an integer of 53 bits times a
  power of two is a double, or an infinity from \<open>2 ^ 1024\<close> on.
\<close>

lemma rint_between:
  assumes "real_of_int m - 1 / 2 < z" "z < real_of_int m + 1 / 2"
  shows "rint z = m"
proof (cases "real_of_int m \<le> z")
  case True
  then have f: "\<lfloor>z\<rfloor> = m" using assms(2) by (intro floor_unique) auto
  show ?thesis unfolding rint_def Let_def f using assms(2) by simp
next
  case False
  then have f: "\<lfloor>z\<rfloor> = m - 1" using assms(1) by (intro floor_unique) auto
  show ?thesis unfolding rint_def Let_def f using assms(1) False by simp
qed

lemma two_powr_neg: "(2::real) powr (- real p) = 1 / 2 ^ p"
  by (simp add: powr_minus_divide powr_realpow)

lemma rnd_double_rint:
  assumes lo: "2 ^ 52 \<le> \<bar>x\<bar> * 2 ^ p" and hi: "\<bar>x\<bar> * 2 ^ p < 2 ^ 53" and p: "p \<le> 1074"
    and r0: "rint (x * 2 ^ p) = m" and bnd: "\<bar>real_of_int m - x * 2 ^ p\<bar> < 1"
    and c: "c = real_of_int m / 2 ^ p"
  shows "rnd_double x = Val c"
proof -
  have pos: "0 < \<bar>x\<bar>"
  proof (rule ccontr)
    assume "\<not> 0 < \<bar>x\<bar>"
    then have "\<bar>x\<bar> * 2 ^ p = 0" by simp
    with lo show False by simp
  qed
  then have x0: "x \<noteq> 0" by auto
  have pw: "(2::real) powr real_of_int (k - int p) = 2 ^ nat k / 2 ^ p" if "0 \<le> k" for k
  proof -
    have "(2::real) powr real_of_int (k - int p) = 2 powr (real (nat k) + (- real p))"
      using that by simp
    also have "\<dots> = 2 ^ nat k / 2 ^ p"
      unfolding powr_add two_powr_neg by (simp add: powr_realpow)
    finally show ?thesis .
  qed
  have l1: "(2::real) powr real_of_int (52 - int p) \<le> \<bar>x\<bar>"
  proof -
    have "(2::real) ^ 52 / 2 ^ p \<le> \<bar>x\<bar>" using lo by (simp add: pos_divide_le_eq)
    moreover have "(2::real) powr real_of_int (52 - int p) = 2 ^ 52 / 2 ^ p"
      using pw [of 52] by simp
    ultimately show ?thesis by simp
  qed
  have l2: "\<bar>x\<bar> < (2::real) powr (real_of_int (52 - int p) + 1)"
  proof -
    have "\<bar>x\<bar> < (2::real) ^ 53 / 2 ^ p" using hi by (simp add: pos_less_divide_eq)
    moreover have "(2::real) powr real_of_int (53 - int p) = 2 ^ 53 / 2 ^ p"
      using pw [of 53] by simp
    moreover have "real_of_int (52 - int p) + 1 = real_of_int (53 - int p)" by simp
    ultimately show ?thesis by simp
  qed
  have fl: "\<lfloor>log 2 \<bar>x\<bar>\<rfloor> = 52 - int p"
    using l1 l2 pos by (simp add: floor_log_eq_powr_iff)
  have e: "max \<lfloor>log 2 \<bar>x\<bar>\<rfloor> (- 1022) = 52 - int p" unfolding fl using p by simp
  have u: "(2::real) powr real_of_int (52 - int p - 52) = 1 / 2 ^ p"
    using two_powr_neg [of p] by simp
  have r: "rint (x / (1 / 2 ^ p)) = m" using r0 by simp
  have "\<bar>real_of_int m\<bar> < 2 ^ 53 + 1"
  proof -
    have "\<bar>real_of_int m - x * 2 ^ p\<bar> < 1" by (rule bnd)
    moreover have "\<bar>x * 2 ^ p\<bar> < 2 ^ 53" using hi by (simp add: abs_mult)
    ultimately show ?thesis by linarith
  qed
  moreover have "(1::real) \<le> 2 ^ p" by simp
  ultimately have "\<bar>real_of_int m / 2 ^ p\<bar> < 2 ^ 53 + 1"
  proof -
    assume a: "\<bar>real_of_int m\<bar> < 2 ^ 53 + 1" and b: "(1::real) \<le> 2 ^ p"
    have "\<bar>real_of_int m\<bar> / 2 ^ p \<le> \<bar>real_of_int m\<bar> / 1"
      by (rule frac_le) (use b in simp_all)
    then show ?thesis using a by simp
  qed
  moreover have "(2::real) ^ 53 + 1 < 2 ^ 1024" by simp
  ultimately have small: "\<not> 2 ^ 1024 \<le> \<bar>real_of_int m * (1 / 2 ^ p)\<bar>" by simp
  show ?thesis
    unfolding rnd_double_def Let_def e u r c using x0 small by simp
qed

lemma rint_tie:
  assumes "z = real_of_int k + 1 / 2"
  shows "rint z = (if even k then k else k + 1)"
proof -
  have f: "\<lfloor>z\<rfloor> = k" using assms by (intro floor_unique) auto
  show ?thesis unfolding rint_def Let_def f using assms by simp
qed

lemma rnd_double_cert:
  assumes lo: "2 ^ 52 \<le> \<bar>x\<bar> * 2 ^ p" and hi: "\<bar>x\<bar> * 2 ^ p < 2 ^ 53" and p: "p \<le> 1074"
    and m1: "real_of_int m - 1 / 2 < x * 2 ^ p" and m2: "x * 2 ^ p < real_of_int m + 1 / 2"
    and c: "c = real_of_int m / 2 ^ p"
  shows "rnd_double x = Val c"
proof (rule rnd_double_rint [OF lo hi p _ _ c])
  show "rint (x * 2 ^ p) = m" using m1 m2 by (rule rint_between)
  show "\<bar>real_of_int m - x * 2 ^ p\<bar> < 1" using m1 m2 by (simp add: abs_less_iff)
qed

lemma rnd_double_cert_tie:
  assumes lo: "2 ^ 52 \<le> \<bar>x\<bar> * 2 ^ p" and hi: "\<bar>x\<bar> * 2 ^ p < 2 ^ 53" and p: "p \<le> 1074"
    and t: "x * 2 ^ p = real_of_int k + 1 / 2" and m: "m = (if even k then k else k + 1)"
    and c: "c = real_of_int m / 2 ^ p"
  shows "rnd_double x = Val c"
proof (rule rnd_double_rint [OF lo hi p _ _ c])
  show "rint (x * 2 ^ p) = m" unfolding m using t by (rule rint_tie)
  show "\<bar>real_of_int m - x * 2 ^ p\<bar> < 1" unfolding m t by simp
qed

lemma rnd_double_sqrt_cert:
  assumes v: "0 \<le> v" and m0: "1 \<le> m"
    and lo: "(2 ^ 52 / 2 ^ p)\<^sup>2 \<le> v" and hi: "v < (2 ^ 53 / 2 ^ p)\<^sup>2" and p: "p \<le> 1074"
    and m1: "((real_of_int m - 1 / 2) / 2 ^ p)\<^sup>2 < v"
    and m2: "v < ((real_of_int m + 1 / 2) / 2 ^ p)\<^sup>2"
    and c: "c = real_of_int m / 2 ^ p"
  shows "rnd_double (sqrt v) = Val c"
proof (rule rnd_double_cert [OF _ _ p _ _ c])
  have s0: "0 \<le> sqrt v" using v by simp
  have a: "2 ^ 52 / 2 ^ p \<le> sqrt v" using lo by (rule real_le_rsqrt)
  have b: "sqrt v < 2 ^ 53 / 2 ^ p" using v hi by (intro real_less_lsqrt) simp_all
  have d: "(real_of_int m - 1 / 2) / 2 ^ p < sqrt v" using m1 by (rule real_less_rsqrt)
  have e: "sqrt v < (real_of_int m + 1 / 2) / 2 ^ p"
    using v m2 m0 by (intro real_less_lsqrt) simp_all
  show "2 ^ 52 \<le> \<bar>sqrt v\<bar> * 2 ^ p" using a s0 by (simp add: pos_divide_le_eq)
  show "\<bar>sqrt v\<bar> * 2 ^ p < 2 ^ 53" using b s0 by (simp add: pos_less_divide_eq)
  show "real_of_int m - 1 / 2 < sqrt v * 2 ^ p" using d by (simp add: pos_divide_less_eq)
  show "sqrt v * 2 ^ p < real_of_int m + 1 / 2" using e by (simp add: pos_less_divide_eq)
qed

lemma rnd_double_big:
  assumes x: "x = real_of_int m * 2 ^ q" and lo: "2 ^ 52 \<le> \<bar>m\<bar>" and hi: "\<bar>m\<bar> < 2 ^ 53"
  shows "rnd_double x = (if 2 ^ 1024 \<le> \<bar>x\<bar> then (if 0 < x then PInf else NInf) else Val x)"
proof -
  have m0: "m \<noteq> 0" using lo by auto
  have x0: "x \<noteq> 0" unfolding x using m0 by simp
  have ax: "\<bar>x\<bar> = real_of_int \<bar>m\<bar> * 2 ^ q" unfolding x by (simp add: abs_mult)
  have pw: "(2::real) powr real_of_int (int k + int q) = 2 ^ k * 2 ^ q" for k
  proof -
    have "(2::real) powr real_of_int (int k + int q) = 2 powr (real k + real q)" by simp
    also have "\<dots> = 2 ^ k * 2 ^ q" unfolding powr_add by (simp add: powr_realpow)
    finally show ?thesis .
  qed
  have l1: "(2::real) powr real_of_int (52 + int q) \<le> \<bar>x\<bar>"
  proof -
    have "(2::real) ^ 52 \<le> real_of_int \<bar>m\<bar>"
      using lo of_int_le_iff [of "2 ^ 52" "\<bar>m\<bar>", where ?'a = real] by simp
    then have "(2::real) ^ 52 * 2 ^ q \<le> real_of_int \<bar>m\<bar> * 2 ^ q"
      by (intro mult_right_mono) simp_all
    then show ?thesis unfolding ax using pw [of 52] by simp
  qed
  have l2: "\<bar>x\<bar> < (2::real) powr (real_of_int (52 + int q) + 1)"
  proof -
    have "real_of_int \<bar>m\<bar> < (2::real) ^ 53"
      using hi of_int_less_iff [of "\<bar>m\<bar>" "2 ^ 53", where ?'a = real] by simp
    then have "real_of_int \<bar>m\<bar> * 2 ^ q < (2::real) ^ 53 * 2 ^ q"
      by (intro mult_strict_right_mono) simp_all
    moreover have "real_of_int (52 + int q) + 1 = real_of_int (int 53 + int q)" by simp
    ultimately show ?thesis unfolding ax using pw [of 53] by simp
  qed
  have pos: "0 < \<bar>x\<bar>" using x0 by simp
  have fl: "\<lfloor>log 2 \<bar>x\<bar>\<rfloor> = 52 + int q"
    using l1 l2 pos by (simp add: floor_log_eq_powr_iff)
  have e: "max \<lfloor>log 2 \<bar>x\<bar>\<rfloor> (- 1022) = 52 + int q" unfolding fl by simp
  have u: "(2::real) powr real_of_int (52 + int q - 52) = 2 ^ q"
    by (simp add: powr_realpow)
  have d: "x / 2 ^ q = real_of_int m" unfolding x by simp
  have r: "rint (real_of_int m) = m" by (rule rint_between) simp_all
  show ?thesis
    unfolding rnd_double_def Let_def e u d r using x0 x by simp
qed

lemma big_positive: "0 < big"
  by (simp add: big_def)

lemma rnd_double_of_big: "rnd_double big = Val big"
proof -
  have "big = real_of_int (2 ^ 52) * 2 ^ 971" by (simp add: big_def)
  from rnd_double_big [OF this] show ?thesis by (simp add: big_def)
qed

lemma rnd_double_of_minus_big: "rnd_double (- big) = Val (- big)"
proof -
  have "- big = real_of_int (- (2 ^ 52)) * 2 ^ 971" by (simp add: big_def)
  from rnd_double_big [OF this] show ?thesis by (simp add: big_def)
qed

lemma rnd_double_overflow: "rnd_double (big + big) = PInf"
proof -
  have "big + big = real_of_int (2 ^ 52) * 2 ^ 972" by (simp add: big_def)
  from rnd_double_big [OF this] show ?thesis by (simp add: big_def)
qed

lemma rnd_double_twice_big: "rnd_double (2 * big) = PInf"
  using rnd_double_overflow by simp

lemma rnd_double_half: "rnd_double (1 / 2) = Val (1 / 2)"
  by (rule rnd_double_cert [where p = 53 and m = 4503599627370496]) simp_all

lemma rnd_double_quarter: "rnd_double (1 / 4) = Val (1 / 4)"
  by (rule rnd_double_cert [where p = 54 and m = 4503599627370496]) simp_all

lemma overflow_sum:
  "np_sum double [Val big, Val big, Val (- big), Val (- big)] = PInf"
  by (simp add: np_sum_def double_def rnd_double_of_big rnd_double_twice_big)

lemma overflow_mean: "np_mean double [Val big, Val big, Val (- big), Val (- big)] = PInf"
  unfolding np_mean_def overflow_sum by simp

lemma overflow_std: "np_std double [Val big, Val big, Val (- big), Val (- big)] = PInf"
proof -
  have m: "np_div (rnd double) (np_sum double [Val big, Val big, Val (- big), Val (- big)])
             (Val (real (length [Val big, Val big, Val (- big), Val (- big)]))) = PInf"
    unfolding overflow_sum by simp
  show ?thesis
    unfolding np_std_def Let_def m
    by (simp add: np_sub_def np_sum_def double_def)
qed

text \<open>
  Finite members can overflow: the sum of two members \<open>2 ^ 1023\<close> is an infinity in
  double precision, the mean and the standard deviation of the four members are
  infinities, their quotient is \<open>nan\<close>, and so are phi, rho and BCI.
\<close>

lemma calculate_bci_overflow:
  "calculate_bci double [Val big, Val big, Val (- big), Val (- big)] (Val 0) None None
     = (NaN, NaN, NaN)"
proof -
  have b: "map (\<lambda>m. np_sub (rnd double) m (Val 0)) [Val big, Val big, Val (- big), Val (- big)]
      = [Val big, Val big, Val (- big), Val (- big)]"
    by (simp add: np_sub_def double_def rnd_double_of_big rnd_double_of_minus_big)
  have d: "directional_agreement double [Val big, Val big, Val (- big), Val (- big)] = Val (1 / 2)"
    using big_positive rnd_double_half
    by (simp add: directional_agreement_def np_count_ratio_def np_gt_def double_def)
  have mc: "magnitude_consistency double [Val big, Val big, Val (- big), Val (- big)] = NaN"
    unfolding magnitude_consistency_def Let_def overflow_mean overflow_std
    by (simp add: np_gt_def)
  have phi: "calculate_bci_component_phi double [Val big, Val big, Val (- big), Val (- big)] (Val 0)
      = NaN"
    unfolding calculate_bci_component_phi_def Let_def b d mc
    by (simp add: phi_combine_def double_def rnd_double_quarter)
  have rho: "calculate_bci_component_rho double PInf PInf = NaN"
    by (simp add: calculate_bci_component_rho_def np_gt_def py_min_def)
  show ?thesis
    unfolding calculate_bci_def Let_def phi overflow_mean overflow_std
    by (simp add: np_sub_def rho)
qed

lemma np_sum_four:
  "np_sum ar [x1, x2, x3, x4]
     = np_add (rnd ar) (np_add (rnd ar) (np_add (rnd ar) (np_add (rnd ar) (Val 0) x1) x2) x3) x4"
  by (simp add: np_sum_def)

lemma rnd_of_double: "rnd double = rnd_double"
  by (simp add: double_def)

lemma np_mean_members_one: "np_mean double members_one = Val (1421448632388813 / 70368744177664)"
proof -
  have r1: "rnd_double (0 + 2828823515942093 / 140737488355328) = Val (2828823515942093 / 140737488355328)"
    by (rule rnd_double_cert [where p = 48 and m = "5657647031884186"]) simp_all
  have s1: "np_add rnd_double (Val (0)) (Val (2828823515942093 / 140737488355328)) = Val (2828823515942093 / 140737488355328)"
    using r1 by (simp add: np_sub_def)
  have r2: "rnd_double (2828823515942093 / 140737488355328 + 5713942027226317 / 281474976710656) = Val (1421448632388813 / 35184372088832)"
    by (rule rnd_double_cert_tie [where p = 47 and k = "5685794529555251" and m = "5685794529555252"]) simp_all
  have s2: "np_add rnd_double (Val (2828823515942093 / 140737488355328)) (Val (5713942027226317 / 281474976710656)) = Val (1421448632388813 / 35184372088832)"
    using r2 by (simp add: np_sub_def)
  have r3: "rnd_double (1421448632388813 / 35184372088832 + 5685794529555251 / 281474976710656) = Val (4264345897166439 / 70368744177664)"
    by (rule rnd_double_cert_tie [where p = 47 and k = "8528691794332877" and m = "8528691794332878"]) simp_all
  have s3: "np_add rnd_double (Val (1421448632388813 / 35184372088832)) (Val (5685794529555251 / 281474976710656)) = Val (4264345897166439 / 70368744177664)"
    using r3 by (simp add: np_sub_def)
  have r4: "rnd_double (4264345897166439 / 70368744177664 + 5685794529555251 / 281474976710656) = Val (1421448632388813 / 17592186044416)"
    by (rule rnd_double_cert [where p = 46 and m = "5685794529555252"]) simp_all
  have s4: "np_add rnd_double (Val (4264345897166439 / 70368744177664)) (Val (5685794529555251 / 281474976710656)) = Val (1421448632388813 / 17592186044416)"
    using r4 by (simp add: np_sub_def)
  have r5: "rnd_double ((1421448632388813 / 17592186044416) / (4)) = Val (1421448632388813 / 70368744177664)"
    by (rule rnd_double_cert [where p = 48 and m = "5685794529555252"]) simp_all
  have s5: "np_div rnd_double (Val (1421448632388813 / 17592186044416)) (Val (4)) = Val (1421448632388813 / 70368744177664)"
    using r5 by (simp add: np_sub_def)
  have sum: "np_sum double members_one = Val (1421448632388813 / 17592186044416)"
    unfolding members_one_def members_two_def d20_1_def d20_2_def d20_3_def np_sum_four rnd_of_double by (simp only: s1 s2 s3 s4)
  show ?thesis
    unfolding np_mean_def sum using r5 by (simp add: members_one_def double_def)
qed

lemma np_std_members_one: "np_std double members_one = Val (636905167252575 / 9007199254740992)"
proof -
  have r1: "rnd_double (2828823515942093 / 140737488355328 + - (1421448632388813 / 70368744177664)) = Val (- (14073748835533 / 140737488355328))"
    by (rule rnd_double_cert [where p = 56 and m = "- 7205759403792896"]) simp_all
  have s1: "np_sub rnd_double (Val (2828823515942093 / 140737488355328)) (Val (1421448632388813 / 70368744177664)) = Val (- (14073748835533 / 140737488355328))"
    using r1 by (simp add: np_sub_def)
  have r2: "rnd_double (5713942027226317 / 281474976710656 + - (1421448632388813 / 70368744177664)) = Val (28147497671065 / 281474976710656)"
    by (rule rnd_double_cert [where p = 56 and m = "7205759403792640"]) simp_all
  have s2: "np_sub rnd_double (Val (5713942027226317 / 281474976710656)) (Val (1421448632388813 / 70368744177664)) = Val (28147497671065 / 281474976710656)"
    using r2 by (simp add: np_sub_def)
  have r3: "rnd_double (5685794529555251 / 281474976710656 + - (1421448632388813 / 70368744177664)) = Val (- (1 / 281474976710656))"
    by (rule rnd_double_cert [where p = 100 and m = "- 4503599627370496"]) simp_all
  have s3: "np_sub rnd_double (Val (5685794529555251 / 281474976710656)) (Val (1421448632388813 / 70368744177664)) = Val (- (1 / 281474976710656))"
    using r3 by (simp add: np_sub_def)
  have r4: "rnd_double (5685794529555251 / 281474976710656 + - (1421448632388813 / 70368744177664)) = Val (- (1 / 281474976710656))"
    by (rule rnd_double_cert [where p = 100 and m = "- 4503599627370496"]) simp_all
  have s4: "np_sub rnd_double (Val (5685794529555251 / 281474976710656)) (Val (1421448632388813 / 70368744177664)) = Val (- (1 / 281474976710656))"
    using r4 by (simp add: np_sub_def)
  have r5: "rnd_double ((- (14073748835533 / 140737488355328)) * (- (14073748835533 / 140737488355328))) = Val (5764607523034399 / 576460752303423488)"
    by (rule rnd_double_cert [where p = 59 and m = "5764607523034399"]) simp_all
  have s5: "np_mul rnd_double (Val (- (14073748835533 / 140737488355328))) (Val (- (14073748835533 / 140737488355328))) = Val (5764607523034399 / 576460752303423488)"
    using r5 by (simp add: np_sub_def)
  have r6: "rnd_double ((28147497671065 / 281474976710656) * (28147497671065 / 281474976710656)) = Val (5764607523033989 / 576460752303423488)"
    by (rule rnd_double_cert [where p = 59 and m = "5764607523033989"]) simp_all
  have s6: "np_mul rnd_double (Val (28147497671065 / 281474976710656)) (Val (28147497671065 / 281474976710656)) = Val (5764607523033989 / 576460752303423488)"
    using r6 by (simp add: np_sub_def)
  have r7: "rnd_double ((- (1 / 281474976710656)) * (- (1 / 281474976710656))) = Val (1 / 79228162514264337593543950336)"
    by (rule rnd_double_cert [where p = 148 and m = "4503599627370496"]) simp_all
  have s7: "np_mul rnd_double (Val (- (1 / 281474976710656))) (Val (- (1 / 281474976710656))) = Val (1 / 79228162514264337593543950336)"
    using r7 by (simp add: np_sub_def)
  have r8: "rnd_double ((- (1 / 281474976710656)) * (- (1 / 281474976710656))) = Val (1 / 79228162514264337593543950336)"
    by (rule rnd_double_cert [where p = 148 and m = "4503599627370496"]) simp_all
  have s8: "np_mul rnd_double (Val (- (1 / 281474976710656))) (Val (- (1 / 281474976710656))) = Val (1 / 79228162514264337593543950336)"
    using r8 by (simp add: np_sub_def)
  have r9: "rnd_double (0 + 5764607523034399 / 576460752303423488) = Val (5764607523034399 / 576460752303423488)"
    by (rule rnd_double_cert [where p = 59 and m = "5764607523034399"]) simp_all
  have s9: "np_add rnd_double (Val (0)) (Val (5764607523034399 / 576460752303423488)) = Val (5764607523034399 / 576460752303423488)"
    using r9 by (simp add: np_sub_def)
  have r10: "rnd_double (5764607523034399 / 576460752303423488 + 5764607523033989 / 576460752303423488) = Val (2882303761517097 / 144115188075855872)"
    by (rule rnd_double_cert [where p = 58 and m = "5764607523034194"]) simp_all
  have s10: "np_add rnd_double (Val (5764607523034399 / 576460752303423488)) (Val (5764607523033989 / 576460752303423488)) = Val (2882303761517097 / 144115188075855872)"
    using r10 by (simp add: np_sub_def)
  have r11: "rnd_double (2882303761517097 / 144115188075855872 + 1 / 79228162514264337593543950336) = Val (2882303761517097 / 144115188075855872)"
    by (rule rnd_double_cert [where p = 58 and m = "5764607523034194"]) simp_all
  have s11: "np_add rnd_double (Val (2882303761517097 / 144115188075855872)) (Val (1 / 79228162514264337593543950336)) = Val (2882303761517097 / 144115188075855872)"
    using r11 by (simp add: np_sub_def)
  have r12: "rnd_double (2882303761517097 / 144115188075855872 + 1 / 79228162514264337593543950336) = Val (2882303761517097 / 144115188075855872)"
    by (rule rnd_double_cert [where p = 58 and m = "5764607523034194"]) simp_all
  have s12: "np_add rnd_double (Val (2882303761517097 / 144115188075855872)) (Val (1 / 79228162514264337593543950336)) = Val (2882303761517097 / 144115188075855872)"
    using r12 by (simp add: np_sub_def)
  have r13: "rnd_double ((2882303761517097 / 144115188075855872) / (4)) = Val (2882303761517097 / 576460752303423488)"
    by (rule rnd_double_cert [where p = 60 and m = "5764607523034194"]) simp_all
  have s13: "np_div rnd_double (Val (2882303761517097 / 144115188075855872)) (Val (4)) = Val (2882303761517097 / 576460752303423488)"
    using r13 by (simp add: np_sub_def)
  have r14: "rnd_double (sqrt (2882303761517097 / 576460752303423488)) = Val (636905167252575 / 9007199254740992)"
    by (rule rnd_double_sqrt_cert [where p = 56 and m = 5095241338020600]) (simp_all add: power2_eq_square)
  have s14: "np_sqrt rnd_double (Val (2882303761517097 / 576460752303423488)) = Val (636905167252575 / 9007199254740992)"
    using r14 by (simp add: np_sub_def)
  have m: "np_div (rnd double) (np_sum double members_one) (Val (real (length members_one))) = Val (1421448632388813 / 70368744177664)"
    using np_mean_members_one by (simp add: np_mean_def)
  have x: "map (\<lambda>v. np_sub rnd_double v (Val (1421448632388813 / 70368744177664))) [Val (2828823515942093 / 140737488355328), Val (5713942027226317 / 281474976710656), Val (5685794529555251 / 281474976710656), Val (5685794529555251 / 281474976710656)] = [Val (- (14073748835533 / 140737488355328)), Val (28147497671065 / 281474976710656), Val (- (1 / 281474976710656)), Val (- (1 / 281474976710656))]"
    by (simp only: list.map s1 s2 s3 s4)
  have x2: "map (\<lambda>v. np_mul rnd_double v v) [Val (- (14073748835533 / 140737488355328)), Val (28147497671065 / 281474976710656), Val (- (1 / 281474976710656)), Val (- (1 / 281474976710656))] = [Val (5764607523034399 / 576460752303423488), Val (5764607523033989 / 576460752303423488), Val (1 / 79228162514264337593543950336), Val (1 / 79228162514264337593543950336)]"
    by (simp only: list.map s5 s6 s7 s8)
  have sm: "np_sum double [Val (5764607523034399 / 576460752303423488), Val (5764607523033989 / 576460752303423488), Val (1 / 79228162514264337593543950336), Val (1 / 79228162514264337593543950336)] = Val (2882303761517097 / 144115188075855872)"
    unfolding np_sum_four rnd_of_double by (simp only: s9 s10 s11 s12)
  have l: "real (length members_one) = 4" by (simp add: members_one_def)
  have mm: "np_div (rnd double) (np_sum double members_one) (Val 4) = Val (1421448632388813 / 70368744177664)"
    using m unfolding l .
  have mo: "members_one = [Val (2828823515942093 / 140737488355328), Val (5713942027226317 / 281474976710656), Val (5685794529555251 / 281474976710656), Val (5685794529555251 / 281474976710656)]" by (simp add: members_one_def members_two_def d20_1_def d20_2_def d20_3_def)
  show ?thesis
    unfolding np_std_def Let_def l mm
    unfolding mo rnd_of_double x x2 sm
    by (simp only: s13 s14)
qed

lemma np_mean_members_two: "np_mean double members_two = Val (5685794529555251 / 281474976710656)"
proof -
  have r1: "rnd_double (0 + 5685794529555251 / 281474976710656) = Val (5685794529555251 / 281474976710656)"
    by (rule rnd_double_cert [where p = 48 and m = "5685794529555251"]) simp_all
  have s1: "np_add rnd_double (Val (0)) (Val (5685794529555251 / 281474976710656)) = Val (5685794529555251 / 281474976710656)"
    using r1 by (simp add: np_sub_def)
  have r2: "rnd_double (5685794529555251 / 281474976710656 + 5685794529555251 / 281474976710656) = Val (5685794529555251 / 140737488355328)"
    by (rule rnd_double_cert [where p = 47 and m = "5685794529555251"]) simp_all
  have s2: "np_add rnd_double (Val (5685794529555251 / 281474976710656)) (Val (5685794529555251 / 281474976710656)) = Val (5685794529555251 / 140737488355328)"
    using r2 by (simp add: np_sub_def)
  have r3: "rnd_double (5685794529555251 / 140737488355328 + 2828823515942093 / 140737488355328) = Val (121 / 2)"
    by (rule rnd_double_cert [where p = 47 and m = "8514618045497344"]) simp_all
  have s3: "np_add rnd_double (Val (5685794529555251 / 140737488355328)) (Val (2828823515942093 / 140737488355328)) = Val (121 / 2)"
    using r3 by (simp add: np_sub_def)
  have r4: "rnd_double (121 / 2 + 5713942027226317 / 281474976710656) = Val (5685794529555251 / 70368744177664)"
    by (rule rnd_double_cert [where p = 46 and m = "5685794529555251"]) simp_all
  have s4: "np_add rnd_double (Val (121 / 2)) (Val (5713942027226317 / 281474976710656)) = Val (5685794529555251 / 70368744177664)"
    using r4 by (simp add: np_sub_def)
  have r5: "rnd_double ((5685794529555251 / 70368744177664) / (4)) = Val (5685794529555251 / 281474976710656)"
    by (rule rnd_double_cert [where p = 48 and m = "5685794529555251"]) simp_all
  have s5: "np_div rnd_double (Val (5685794529555251 / 70368744177664)) (Val (4)) = Val (5685794529555251 / 281474976710656)"
    using r5 by (simp add: np_sub_def)
  have sum: "np_sum double members_two = Val (5685794529555251 / 70368744177664)"
    unfolding members_one_def members_two_def d20_1_def d20_2_def d20_3_def np_sum_four rnd_of_double by (simp only: s1 s2 s3 s4)
  show ?thesis
    unfolding np_mean_def sum using r5 by (simp add: members_two_def double_def)
qed

text \<open>
  Claim C10 as stated (the triple is identical for every reordering of the members) is
  false in double precision: for the members 20.1, 20.3, 20.2, 20.2 against the
  observation 20.1 the derived error is just above 0.1 and rho is 0.707..., and for the
  same members in the order 20.2, 20.2, 20.1, 20.3 the derived error is just below 0.1
  and rho is 1.0.
\<close>

theorem calculate_bci_order_dependent:
  "mset members_one = mset members_two
   \<and> snd (snd (calculate_bci double members_one (Val d20_1) None None)) = Val (6369051672525659 / 9007199254740992)
   \<and> snd (snd (calculate_bci double members_two (Val d20_1) None None)) = Val 1"
proof -
  have p: "mset members_one = mset members_two" by (simp add: members_one_def members_two_def)
  have r1: "rnd_double (1421448632388813 / 70368744177664 + - (2828823515942093 / 140737488355328)) = Val (14073748835533 / 140737488355328)"
    by (rule rnd_double_cert [where p = 56 and m = "7205759403792896"]) simp_all
  have s1: "np_sub rnd_double (Val (1421448632388813 / 70368744177664)) (Val (2828823515942093 / 140737488355328)) = Val (14073748835533 / 140737488355328)"
    using r1 by (simp add: np_sub_def)
  have r2: "rnd_double ((636905167252575 / 9007199254740992) / (14073748835533 / 140737488355328)) = Val (6369051672525659 / 9007199254740992)"
    by (rule rnd_double_cert [where p = 53 and m = "6369051672525659"]) simp_all
  have s2: "np_div rnd_double (Val (636905167252575 / 9007199254740992)) (Val (14073748835533 / 140737488355328)) = Val (6369051672525659 / 9007199254740992)"
    using r2 by (simp add: np_sub_def)
  have e1: "np_abs (np_sub (rnd double) (np_mean double members_one) (Val d20_1)) = Val (14073748835533 / 140737488355328)"
    unfolding np_mean_members_one rnd_of_double d20_1_def by (simp only: s1 np_abs.simps) simp
  have rho1: "calculate_bci_component_rho double (Val (636905167252575 / 9007199254740992)) (Val (14073748835533 / 140737488355328)) = Val (6369051672525659 / 9007199254740992)"
    unfolding calculate_bci_component_rho_def Let_def rnd_of_double s2
    by (simp add: np_gt_def py_min_def)
  have one: "snd (snd (calculate_bci double members_one (Val d20_1) None None)) = Val (6369051672525659 / 9007199254740992)"
    unfolding calculate_bci_def Let_def option.simps e1 np_std_members_one rho1 by simp
  have q1: "rnd_double (5685794529555251 / 281474976710656 + - (2828823515942093 / 140737488355328)) = Val (28147497671065 / 281474976710656)"
    by (rule rnd_double_cert [where p = 56 and m = "7205759403792640"]) simp_all
  have t1: "np_sub rnd_double (Val (5685794529555251 / 281474976710656)) (Val (2828823515942093 / 140737488355328)) = Val (28147497671065 / 281474976710656)"
    using q1 by (simp add: np_sub_def)
  have e2: "np_abs (np_sub (rnd double) (np_mean double members_two) (Val d20_1)) = Val (28147497671065 / 281474976710656)"
    unfolding np_mean_members_two rnd_of_double d20_1_def by (simp only: t1 np_abs.simps) simp
  have small: "(28147497671065 / 281474976710656 :: real) \<le> 0.1" by simp
  have two: "snd (snd (calculate_bci double members_two (Val d20_1) None None)) = Val 1"
    unfolding calculate_bci_def Let_def option.simps e2 rho_small_error [OF small] by simp
  show ?thesis using p one two by simp
qed

section \<open>Record matching and filtering: which rows are scored\<close>

lemma cell_eq_iff: "cell_eq a b \<longleftrightarrow> b \<noteq> None \<and> a = b"
  by (cases a; cases b) (simp_all add: cell_eq_def)

lemma select_members_key: "select_members ensemble_df s vt = members_of ensemble_df s vt"
proof -
  have h: "(\<lambda>e. cell_eq (ens_storm e) s \<and> cell_eq (ens_valid_time e) vt)
      = (\<lambda>e. s \<noteq> None \<and> ens_storm e = s \<and> vt \<noteq> None \<and> ens_valid_time e = vt)"
    by (auto simp: cell_eq_iff)
  show ?thesis unfolding select_members_def members_of_def h by (rule refl)
qed

lemma length_members_of:
  "length (members_of ensemble_df s vt)
     = length (filter (\<lambda>e. s \<noteq> None \<and> ens_storm e = s \<and> vt \<noteq> None \<and> ens_valid_time e = vt)
         ensemble_df)"
  by (simp add: members_of_def)

lemma process_rows_truncate:
  "map matched_row.truncate (process_rows ar ensemble_df rows results)
     = map matched_row.truncate results
       @ filter (\<lambda>row. 4 \<le> length (members_of ensemble_df (storm row) (valid_time row))) rows"
proof (induction rows arbitrary: results)
  case Nil
  then show ?case by simp
next
  case (Cons row rest)
  let ?members = "members_of ensemble_df (storm row) (valid_time row)"
  show ?case
  proof (cases "length ?members < 4")
    case True
    then show ?thesis using Cons.IH [of results] by (simp add: Let_def select_members_key)
  next
    case False
    obtain bci p r where c: "calculate_bci ar (map Val ?members)
        (Val (obs_temperature row)) (Some (Val (model_std row))) (Some (Val (mean_error row)))
          = (bci, p, r)"
      by (cases "calculate_bci ar (map Val ?members)
        (Val (obs_temperature row)) (Some (Val (model_std row))) (Some (Val (mean_error row)))") auto
    have t: "matched_row.truncate
        \<lparr>storm = storm row, valid_time = valid_time row, obs_temperature = obs_temperature row,
         model_mean = model_mean row, model_std = model_std row, mean_error = mean_error row,
         phi = p, rho = r, BCI = bci, n_members = length ?members\<rparr> = row"
      by (simp add: matched_row.truncate_def)
    show ?thesis using False c
      by (simp add: Let_def select_members_key Cons.IH t)
  qed
qed

lemma process_rows_scored:
  "list_all (scored_from ar ensemble_df) results
     \<Longrightarrow> list_all (scored_from ar ensemble_df) (process_rows ar ensemble_df rows results)"
proof (induction rows arbitrary: results)
  case Nil
  then show ?case by simp
next
  case (Cons row rest)
  let ?members = "members_of ensemble_df (storm row) (valid_time row)"
  show ?case
  proof (cases "length ?members < 4")
    case True
    then show ?thesis using Cons by (simp add: Let_def select_members_key)
  next
    case False
    obtain bci p r where c: "calculate_bci ar (map Val ?members)
        (Val (obs_temperature row)) (Some (Val (model_std row))) (Some (Val (mean_error row)))
          = (bci, p, r)"
      by (cases "calculate_bci ar (map Val ?members)
        (Val (obs_temperature row)) (Some (Val (model_std row))) (Some (Val (mean_error row)))") auto
    let ?new = "\<lparr>storm = storm row, valid_time = valid_time row, obs_temperature = obs_temperature row,
         model_mean = model_mean row, model_std = model_std row, mean_error = mean_error row,
         phi = p, rho = r, BCI = bci, n_members = length ?members\<rparr>"
    have "scored_from ar ensemble_df ?new" using False c by (simp add: scored_from_def Let_def)
    then have "list_all (scored_from ar ensemble_df) (results @ [?new])"
      using Cons.prems by simp
    from Cons.IH [OF this] show ?thesis using False c by (simp add: Let_def select_members_key)
  qed
qed

text \<open>
  What the loop does for every input, however the arithmetic rounds. The saved table
  holds one scored row for exactly those matched rows for which at least four rows of
  the ensemble table have the same storm and the same time, neither missing, in the
  order of the matched table and with the matched row's fields unchanged; each scored
  row carries the scores of those members and their number; so the table is never
  longer than the matched one. The call returns the table when it has a row, and
  raises \<open>KeyError\<close> after saving when it has none.
\<close>

lemma matching_and_filtering:
  "map matched_row.truncate (fst (process_validation_data ar matched_df ensemble_df))
     = filter
         (\<lambda>row. 4 \<le> length
            (filter (\<lambda>e. storm row \<noteq> None \<and> ens_storm e = storm row
                        \<and> valid_time row \<noteq> None \<and> ens_valid_time e = valid_time row)
               ensemble_df))
         matched_df
   \<and> list_all (scored_from ar ensemble_df) (fst (process_validation_data ar matched_df ensemble_df))
   \<and> length (fst (process_validation_data ar matched_df ensemble_df)) \<le> length matched_df
   \<and> snd (process_validation_data ar matched_df ensemble_df)
       = (if fst (process_validation_data ar matched_df ensemble_df) = [] then Inl KeyError
          else Inr (fst (process_validation_data ar matched_df ensemble_df)))"
proof -
  let ?saved = "fst (process_validation_data ar matched_df ensemble_df)"
  have s: "?saved = process_rows ar ensemble_df matched_df []"
    by (simp add: process_validation_data_def Let_def)
  have t: "map matched_row.truncate ?saved
     = filter
         (\<lambda>row. 4 \<le> length
            (filter (\<lambda>e. storm row \<noteq> None \<and> ens_storm e = storm row
                        \<and> valid_time row \<noteq> None \<and> ens_valid_time e = valid_time row)
               ensemble_df))
         matched_df"
    unfolding s by (simp add: process_rows_truncate length_members_of)
  have "length ?saved = length (map matched_row.truncate ?saved)" by simp
  also have "\<dots> \<le> length matched_df" unfolding t by (rule length_filter_le)
  finally have l: "length ?saved \<le> length matched_df" .
  have a: "list_all (scored_from ar ensemble_df) ?saved"
    unfolding s by (rule process_rows_scored) simp
  have r: "snd (process_validation_data ar matched_df ensemble_df)
       = (if ?saved = [] then Inl KeyError else Inr ?saved)"
    by (simp add: process_validation_data_def Let_def)
  show ?thesis using t a l r by blast
qed

text \<open>
  One matched row with four members in exact arithmetic, scored with the row's spread
  and error; a fifth ensemble row has another time.
\<close>

lemma scored_example:
  "process_validation_data exact
     [\<lparr>storm = Some ''IDA'', valid_time = Some 7, obs_temperature = 2.5, model_mean = 2.5,
       model_std = 1, mean_error = 2\<rparr>]
     [\<lparr>ens_storm = Some ''IDA'', ens_valid_time = Some 7, temperature = 1\<rparr>,
      \<lparr>ens_storm = Some ''IDA'', ens_valid_time = Some 7, temperature = 2\<rparr>,
      \<lparr>ens_storm = Some ''IDA'', ens_valid_time = Some 7, temperature = 3\<rparr>,
      \<lparr>ens_storm = Some ''IDA'', ens_valid_time = Some 8, temperature = 9\<rparr>,
      \<lparr>ens_storm = Some ''IDA'', ens_valid_time = Some 7, temperature = 4\<rparr>]
   = ([\<lparr>storm = Some ''IDA'', valid_time = Some 7, obs_temperature = 2.5, model_mean = 2.5,
       model_std = 1, mean_error = 2, phi = Val 0.65, rho = Val 0.5,
       BCI = Val (sqrt (0.65 * 0.5)), n_members = 4\<rparr>],
      Inr [\<lparr>storm = Some ''IDA'', valid_time = Some 7, obs_temperature = 2.5, model_mean = 2.5,
       model_std = 1, mean_error = 2, phi = Val 0.65, rho = Val 0.5,
       BCI = Val (sqrt (0.65 * 0.5)), n_members = 4\<rparr>])"
  by (simp add: process_validation_data_def select_members_def cell_eq_def Let_def
        calculate_bci_def calculate_bci_component_phi_def phi_combine_def
        directional_agreement_def np_count_ratio_def magnitude_consistency_def
        calculate_bci_component_rho_def np_std_def np_mean_def np_sum_def np_sub_def
        np_gt_def exact_def py_min_def)

text \<open>
  Four ensemble rows whose storm cell is missing do not match a matched row whose
  storm cell is missing: the row is skipped.
\<close>

lemma missing_storm_skipped:
  "fst (process_validation_data ar
     [\<lparr>storm = None, valid_time = Some 7, obs_temperature = 20, model_mean = 21,
       model_std = 1, mean_error = 1\<rparr>]
     [\<lparr>ens_storm = None, ens_valid_time = Some 7, temperature = 20\<rparr>,
      \<lparr>ens_storm = None, ens_valid_time = Some 7, temperature = 21\<rparr>,
      \<lparr>ens_storm = None, ens_valid_time = Some 7, temperature = 22\<rparr>,
      \<lparr>ens_storm = None, ens_valid_time = Some 7, temperature = 23\<rparr>]) = []"
  by (simp add: process_validation_data_def select_members_def cell_eq_def Let_def)

text \<open>
  Claim C4 at the input of one matched row whose key has three members (a fourth
  ensemble row has another time). The claim has the row skipped without error; the
  loop skips it, the empty table is saved, and the call then raises \<open>KeyError\<close> where
  it prints the statistics of the \<open>BCI\<close> column, which a table without rows does not
  have.
\<close>

theorem process_validation_data_all_skipped:
  "process_validation_data ar (fst three_member_input) (snd three_member_input)
     = ([], Inl KeyError)"
  by (simp add: three_member_input_def process_validation_data_def select_members_def
        cell_eq_def Let_def)

section \<open>Partial correlation\<close>












section \<open>Per-storm statistics: grouping and order\<close>

lemma stats_storm_aggregate: "stats_storm (aggregate df s) = s"
  by (simp add: aggregate_def Let_def)

lemma N_aggregate:
  "N (aggregate df s) = length (filter (\<lambda>r. storm r = Some s \<and> valid_time r \<noteq> None) df)"
  by (simp add: aggregate_def storm_rows_def Let_def conj_commute)











text \<open>
  The scenario of the specification: five storms with 10, 3, 7, 1 and 20 rows. The
  counts are all different, so there is one order only: the storms come out in the
  order of the counts 20, 10, 7, 3, 1.
\<close>

lemma scenario_storms:
  "sort (remdups (List.map_filter storm scenario_table)) = [''A'', ''B'', ''C'', ''D'', ''E'']"
proof -
  have "List.map_filter storm scenario_table
      = replicate 10 ''A'' @ replicate 3 ''B'' @ replicate 7 ''C'' @ replicate 1 ''D''
          @ replicate 20 ''E''"
    by (simp add: scenario_table_def example_row_def List.map_filter_def filter_replicate
          map_replicate)
  then have "remdups (List.map_filter storm scenario_table) = [''A'', ''B'', ''C'', ''D'', ''E'']"
    by (simp add: eval_nat_numeral)
  then show ?thesis by (simp add: less_eq_char_def less_char_def)
qed

lemma scenario_counts:
  "N (aggregate scenario_table ''A'') = 10" "N (aggregate scenario_table ''B'') = 3"
  "N (aggregate scenario_table ''C'') = 7" "N (aggregate scenario_table ''D'') = 1"
  "N (aggregate scenario_table ''E'') = 20"
  by (simp_all add: N_aggregate scenario_table_def example_row_def filter_replicate)

lemma storm_counts_scenario:
  assumes "storm_stats_sorted scenario_table out"
  shows "map N out = [20, 10, 7, 3, 1]"
    and "map stats_storm out = [''E'', ''A'', ''C'', ''B'', ''D'']"
proof -
  let ?G = "groupby_storm_agg scenario_table"
  let ?f = "\<lambda>n. if n = 20 then ''E'' else if n = 10 then ''A'' else if n = 7 then ''C''
                 else if n = 3 then ''B'' else ''D''"
  have perm: "mset out = mset ?G" and desc: "sorted_wrt (\<lambda>a b. N b \<le> N a) out"
    using assms by (simp_all add: storm_stats_sorted_def sort_values_N_descending_def)
  have G: "?G = map (aggregate scenario_table) [''A'', ''B'', ''C'', ''D'', ''E'']"
    unfolding groupby_storm_agg_def scenario_storms ..
  have nG: "map N ?G = [10, 3, 7, 1, 20]"
    unfolding G by (simp add: scenario_counts)
  have "mset (map N out) = mset (map N ?G)" using perm by (metis mset_map)
  then have m: "mset (rev (map N out)) = mset [10, 3, 7, 1, 20 :: nat]" unfolding nG by simp
  have "sorted_wrt (\<lambda>a b. b \<le> a) (map N out)" using desc by (simp add: sorted_wrt_map)
  then have "sorted (rev (map N out))" by (simp add: sorted_wrt_rev)
  with m have "sort [10, 3, 7, 1, 20 :: nat] = rev (map N out)"
    by (rule properties_for_sort)
  then have "rev (map N out) = [1, 3, 7, 10, 20]" by simp
  then have "rev (rev (map N out)) = rev [1, 3, 7, 10, 20]" by (rule arg_cong)
  then show n: "map N out = [20, 10, 7, 3, 1]" by simp
  have "\<forall>x \<in> set ?G. stats_storm x = ?f (N x)"
    unfolding G by (simp add: scenario_counts stats_storm_aggregate)
  moreover have "set out = set ?G" using perm by (rule mset_eq_setD)
  ultimately have "\<forall>x \<in> set out. stats_storm x = ?f (N x)" by simp
  then have "map stats_storm out = map ?f (map N out)" by simp
  then show "map stats_storm out = [''E'', ''A'', ''C'', ''B'', ''D'']" unfolding n by simp
qed

section \<open>Baseline comparison: the high-error label\<close>

lemma sum_list_indicator:
  "sum_list (map (\<lambda>r. if P r then 1 else 0) xs) = (length (filter P xs) :: nat)"
  by (induction xs) simp_all

lemma count_le_sorted:
  fixes s :: "real list"
  assumes "sorted s" "k < length s" "s ! k \<le> t"
  shows "k + 1 \<le> length (filter (\<lambda>x. x \<le> t) s)"
proof -
  have "\<forall>x \<in> set (take (k + 1) s). x \<le> t"
  proof
    fix x assume "x \<in> set (take (k + 1) s)"
    then obtain i where i: "i < k + 1" "i < length s" "x = s ! i"
      by (auto simp: in_set_conv_nth)
    then have "s ! i \<le> s ! k" using assms(1,2) by (intro sorted_nth_mono) auto
    with i assms(3) show "x \<le> t" by simp
  qed
  then have "filter (\<lambda>x. x \<le> t) (take (k + 1) s) = take (k + 1) s" by (simp add: filter_id_conv)
  moreover have "filter (\<lambda>x. x \<le> t) s
      = filter (\<lambda>x. x \<le> t) (take (k + 1) s) @ filter (\<lambda>x. x \<le> t) (drop (k + 1) s)"
    by (metis append_take_drop_id filter_append)
  ultimately have "length (filter (\<lambda>x. x \<le> t) s) \<ge> length (take (k + 1) s)" by simp
  then show ?thesis using assms(2) by simp
qed

lemma count_ge_sorted:
  fixes s :: "real list"
  assumes "sorted s" "k < length s" "t \<le> s ! k"
  shows "length s - k \<le> length (filter (\<lambda>x. t \<le> x) s)"
proof -
  have "\<forall>x \<in> set (drop k s). t \<le> x"
  proof
    fix x assume "x \<in> set (drop k s)"
    then obtain i where i: "i < length s - k" "x = s ! (k + i)"
      by (auto simp: in_set_conv_nth)
    then have "s ! k \<le> s ! (k + i)" using assms(1,2) by (intro sorted_nth_mono) auto
    with i assms(3) show "t \<le> x" by simp
  qed
  then have "filter (\<lambda>x. t \<le> x) (drop k s) = drop k s" by (simp add: filter_id_conv)
  moreover have "filter (\<lambda>x. t \<le> x) s
      = filter (\<lambda>x. t \<le> x) (take k s) @ filter (\<lambda>x. t \<le> x) (drop k s)"
    by (metis append_take_drop_id filter_append)
  ultimately have "length (filter (\<lambda>x. t \<le> x) s) \<ge> length (drop k s)" by simp
  then show ?thesis by simp
qed

lemma length_filter_sort:
  fixes col :: "real list"
  shows "length (filter P (sort col)) = length (filter P col)"
proof -
  have "mset (filter P (sort col)) = mset (filter P col)" by simp
  then show ?thesis by (rule mset_eq_length)
qed

lemma quantile_between:
  assumes ne: "col \<noteq> []" and q: "0 \<le> q" "q \<le> 1"
  defines "pos \<equiv> q * real (length col - 1)"
  shows "\<exists>t. quantile col q = Val t
           \<and> nat \<lfloor>pos\<rfloor> < length col \<and> nat \<lceil>pos\<rceil> < length col
           \<and> sort col ! nat \<lfloor>pos\<rfloor> \<le> t \<and> t \<le> sort col ! nat \<lceil>pos\<rceil>"
proof -
  let ?s = "sort col" and ?lo = "nat \<lfloor>pos\<rfloor>" and ?hi = "nat \<lceil>pos\<rceil>"
  have n: "0 < length col" using ne by simp
  have p0: "0 \<le> pos" unfolding pos_def using q by simp
  have p1: "pos \<le> real (length col - 1)"
    unfolding pos_def using q by (simp add: mult_left_le_one_le)
  have "\<lceil>pos\<rceil> \<le> int (length col - 1)" using p1 by (simp add: ceiling_le_iff)
  then have hi: "?hi \<le> length col - 1" by linarith
  have lohi: "?lo \<le> ?hi" by (intro nat_mono) (simp add: floor_le_ceiling)
  have lo_le: "real ?lo \<le> pos" using p0 by simp
  have frac0: "0 \<le> pos - real ?lo" using lo_le by simp
  have frac1: "pos - real ?lo \<le> 1" using p0 by (simp; linarith)
  have hl: "?hi < length col" using hi n by linarith
  have hl': "?hi < length ?s" using hl by (simp only: length_sort)
  have d: "?s ! ?lo \<le> ?s ! ?hi"
    by (rule sorted_nth_mono [OF sorted_sort lohi hl'])
  let ?t = "?s ! ?lo + (?s ! ?hi - ?s ! ?lo) * (pos - real ?lo)"
  have "quantile col q = Val ?t"
    using ne by (simp add: quantile_def Let_def pos_def)
  moreover have "?s ! ?lo \<le> ?t" using d frac0 by simp
  moreover have "?t \<le> ?s ! ?hi"
  proof -
    have "(?s ! ?hi - ?s ! ?lo) * (pos - real ?lo) \<le> (?s ! ?hi - ?s ! ?lo) * 1"
      using d frac1 by (intro mult_left_mono) auto
    then show ?thesis by simp
  qed
  moreover note hl
  moreover have "?lo < length col" using lohi hl by linarith
  ultimately show ?thesis by blast
qed

lemma quarter_lo:
  fixes pos :: real and m lo :: nat
  assumes "4 * pos = 3 * real m" "pos < real lo + 1"
  shows "3 * m < 4 * (lo + 1)"
proof -
  have "real (3 * m) < real (4 * (lo + 1))" using assms by simp
  then show ?thesis by (simp only: of_nat_less_iff)
qed

lemma quarter_hi:
  fixes pos :: real and m hi :: nat
  assumes "4 * pos = 3 * real m" "real hi < pos + 1"
  shows "4 * hi < 3 * m + 4"
proof -
  have "real (4 * hi) < real (3 * m + 4)" using assms by simp
  then show ?thesis by (simp only: of_nat_less_iff)
qed

lemma upper_quartile:
  assumes "df \<noteq> []"
  shows "\<exists>t. error_threshold df = Val t
        \<and> 3 * (length df - 1) < 4 * length (filter (\<lambda>r. mean_error r \<le> t) df)
        \<and> length df - 1 < 4 * length (filter (\<lambda>r. t \<le> mean_error r) df)
        \<and> 4 * length (filter (\<lambda>r. t < mean_error r) df) \<le> length df + 2"
proof -
  let ?col = "map mean_error df"
  define n where "n = length df"
  define pos where "pos = (0.75::real) * real (length ?col - 1)"
  define lo where "lo = nat \<lfloor>pos\<rfloor>"
  define hi where "hi = nat \<lceil>pos\<rceil>"
  define n_le where "n_le t = length (filter (\<lambda>r. mean_error r \<le> t) df)" for t
  define n_ge where "n_ge t = length (filter (\<lambda>r. t \<le> mean_error r) df)" for t
  define n_gt where "n_gt t = length (filter (\<lambda>r. t < mean_error r) df)" for t
  have ne: "?col \<noteq> []" using assms by simp
  obtain t where t: "quantile ?col 0.75 = Val t" "lo < length ?col" "hi < length ?col"
    "sort ?col ! lo \<le> t" "t \<le> sort ?col ! hi"
    using quantile_between [OF ne, of "0.75"] unfolding pos_def lo_def hi_def by auto
  have p0: "0 \<le> pos" unfolding pos_def by simp
  have pos4: "4 * pos = 3 * real (n - 1)" unfolding pos_def n_def by simp
  have flt: "length (filter P ?col) = length (filter (\<lambda>r. P (mean_error r)) df)" for P
    by (simp add: filter_map comp_def)
  have le: "lo + 1 \<le> n_le t"
    using count_le_sorted [of "sort ?col" lo t] t(2,4)
    unfolding n_le_def by (simp add: length_filter_sort filter_map comp_def)
  have ge: "n - hi \<le> n_ge t"
    using count_ge_sorted [of "sort ?col" hi t] t(3,5)
    unfolding n_ge_def n_def by (simp add: length_filter_sort filter_map comp_def)
  have hn: "hi < n" using t(3) unfolding n_def by simp
  have "pos < real lo + 1" unfolding lo_def using p0 by (simp; linarith)
  then have a: "3 * (n - 1) < 4 * (lo + 1)" by (rule quarter_lo [OF pos4])
  have "real hi < pos + 1" unfolding hi_def using p0 by (simp; linarith)
  then have b: "4 * hi < 3 * (n - 1) + 4" by (rule quarter_hi [OF pos4])
  have "4 * (lo + 1) \<le> 4 * n_le t" using le by (rule mult_le_mono2)
  with a have c1: "3 * (n - 1) < 4 * n_le t" by (rule less_le_trans)
  have "4 * (n - hi) \<le> 4 * n_ge t" using ge by (rule mult_le_mono2)
  moreover have "n - 1 < 4 * (n - hi)" using b hn by arith
  ultimately have c2: "n - 1 < 4 * n_ge t" by (rule less_le_trans [rotated])
  have split: "n_gt t + n_le t = n"
    unfolding n_gt_def n_le_def n_def
    using sum_length_filter_compl [of "\<lambda>r. t < mean_error r" df] by (simp add: not_less)
  have c3: "4 * n_gt t \<le> n + 2" using c1 split by arith
  show ?thesis
    using t(1) c1 c2 c3 unfolding n_le_def n_ge_def n_gt_def n_def error_threshold_def by blast
qed

text \<open>
  Claim C6. The error threshold is the 0.75 quantile of the \<open>mean_error\<close> column; a
  row is labelled 1 exactly when its error is strictly greater than the threshold, and
  the sum of the labels is the number of such rows. For a table that is not empty the
  threshold is a number that sits at the upper quartile: more than three quarters of
  \<open>n - 1\<close> rows have an error at or below it, more than a quarter of \<open>n - 1\<close> rows
  one at or above it, and at most \<open>(n + 2) / 4\<close> rows are labelled.
\<close>

theorem high_error_count:
  "error_threshold df = quantile (map mean_error df) 0.75
   \<and> high_error df
       = map (\<lambda>r. if np_gt (Val (mean_error r)) (error_threshold df) then 1 else 0) df
   \<and> sum_list (high_error df)
       = length (filter (\<lambda>r. np_gt (Val (mean_error r)) (error_threshold df)) df)
   \<and> (df \<noteq> [] \<longrightarrow>
        (\<exists>t. error_threshold df = Val t
           \<and> 3 * (length df - 1) < 4 * length (filter (\<lambda>r. mean_error r \<le> t) df)
           \<and> length df - 1 < 4 * length (filter (\<lambda>r. t \<le> mean_error r) df)
           \<and> sum_list (high_error df) = length (filter (\<lambda>r. t < mean_error r) df)
           \<and> 4 * length (filter (\<lambda>r. t < mean_error r) df) \<le> length df + 2))"
proof -
  have labels: "high_error df
       = map (\<lambda>r. if np_gt (Val (mean_error r)) (error_threshold df) then 1 else 0) df"
    by (simp add: high_error_def)
  have count: "sum_list (high_error df)
       = length (filter (\<lambda>r. np_gt (Val (mean_error r)) (error_threshold df)) df)"
    unfolding labels by (rule sum_list_indicator)
  have quartile: "\<exists>t. error_threshold df = Val t
           \<and> 3 * (length df - 1) < 4 * length (filter (\<lambda>r. mean_error r \<le> t) df)
           \<and> length df - 1 < 4 * length (filter (\<lambda>r. t \<le> mean_error r) df)
           \<and> sum_list (high_error df) = length (filter (\<lambda>r. t < mean_error r) df)
           \<and> 4 * length (filter (\<lambda>r. t < mean_error r) df) \<le> length df + 2"
    if nonempty: "df \<noteq> []"
  proof -
    obtain t where t: "error_threshold df = Val t"
        "3 * (length df - 1) < 4 * length (filter (\<lambda>r. mean_error r \<le> t) df)"
        "length df - 1 < 4 * length (filter (\<lambda>r. t \<le> mean_error r) df)"
        "4 * length (filter (\<lambda>r. t < mean_error r) df) \<le> length df + 2"
      using upper_quartile [OF nonempty] by blast
    have "sum_list (high_error df) = length (filter (\<lambda>r. t < mean_error r) df)"
      unfolding count t(1) by (simp add: np_gt_def)
    with t show ?thesis by blast
  qed
  show ?thesis
    using labels count quartile by (simp add: error_threshold_def)
qed

theorem high_error_count_witness:
  "map (\<lambda>e. example_row ''A'' e 0.5) [4, 1, 3, 2] \<noteq> []
   \<and> error_threshold (map (\<lambda>e. example_row ''A'' e 0.5) [4, 1, 3, 2]) = Val 3.25
   \<and> high_error (map (\<lambda>e. example_row ''A'' e 0.5) [4, 1, 3, 2]) = [1, 0, 0, 0]
   \<and> sum_list (high_error (map (\<lambda>e. example_row ''A'' e 0.5) [4, 1, 3, 2])) = 1
   \<and> (\<exists>t. error_threshold (map (\<lambda>e. example_row ''A'' e 0.5) [4, 1, 3, 2]) = Val t
        \<and> sum_list (high_error (map (\<lambda>e. example_row ''A'' e 0.5) [4, 1, 3, 2]))
            = length (filter (\<lambda>r. t < mean_error r) (map (\<lambda>e. example_row ''A'' e 0.5) [4, 1, 3, 2]))
        \<and> 4 * length (filter (\<lambda>r. t < mean_error r) (map (\<lambda>e. example_row ''A'' e 0.5) [4, 1, 3, 2]))
            \<le> length (map (\<lambda>e. example_row ''A'' e 0.5) [4, 1, 3, 2]) + 2)"
proof -
  let ?df = "map (\<lambda>e. example_row ''A'' e 0.5) [4, 1, 3, 2]"
  have ne: "?df \<noteq> []" by simp
  have thr: "error_threshold ?df = Val 3.25"
    by (simp add: error_threshold_def quantile_def example_row_def)
  have lab: "high_error ?df = [1, 0, 0, 0]"
    unfolding high_error_def thr by (simp add: example_row_def np_gt_def)
  have "\<exists>t. error_threshold ?df = Val t
        \<and> sum_list (high_error ?df) = length (filter (\<lambda>r. t < mean_error r) ?df)
        \<and> 4 * length (filter (\<lambda>r. t < mean_error r) ?df) \<le> length ?df + 2"
    using high_error_count [of ?df] ne by blast
  then show ?thesis using ne thr lab by simp
qed

end
